theory Spec2Isabelle
  imports Complex_Main
begin

chapter \<open>The Excel synchronisation of the timber volume calculator\<close>

text \<open>
  The part of \<open>script.js\<close> that keeps a chosen Excel file in step with the saved customer
  records: the handle store in IndexedDB, the permission checks, the workbook helpers, and
  the three operations \<open>connectExcelFile\<close>, \<open>appendCustomerToExcel\<close> and
  \<open>restoreExcelConnectionStatus\<close>. Functions of the script keep their names; the browser
  and SheetJS are modelled as far as the script uses them.
\<close>


section \<open>Constants of script.js\<close>

definition EXCEL_SHEET_NAME :: string where
  "EXCEL_SHEET_NAME = ''CustomerData''"

definition EXCEL_HEADERS :: "string list" where
  "EXCEL_HEADERS = [''Date'', ''Name'', ''WhatsApp Number'', ''Address'', ''Total Volume (ft^3)'']"

section \<open>Numbers and \<open>Number.prototype.toFixed\<close>\<close>

text \<open>
  A JavaScript number is a double: one of the three non-finite values or a finite value,
  kept here by its exact (rational) value. \<open>toFixed\<close> is defined by ECMAScript on that
  exact value, so no rounding of the double itself enters the model.
\<close>

datatype number = Finite rat | NaN | PosInfinity | NegInfinity

definition digit_char :: "nat \<Rightarrow> char" where
  "digit_char d = ''0123456789'' ! d"

fun digits10 :: "nat \<Rightarrow> string" where
  "digits10 n = (if n < 10 then [digit_char n] else digits10 (n div 10) @ [digit_char (n mod 10)])"

declare digits10.simps [simp del]

text \<open>
  \<open>x.toFixed(f)\<close> (ECMAScript, Number.prototype.toFixed): a non-finite \<open>x\<close> gives its
  name; the sign is split off; a magnitude of \<open>10^21\<close> or more is printed by
  Number::toString (exponent notation with the shortest digits that read back as the same
  double, which is a matter of the floating-point format: the parameter \<open>toStr\<close>);
  otherwise \<open>n\<close> is the integer nearest to \<open>x * 10^f\<close> (the larger one on a tie), printed
  with at least \<open>f + 1\<close> digits and a point before the last \<open>f\<close>.
\<close>

definition toFixed :: "(rat \<Rightarrow> string) \<Rightarrow> number \<Rightarrow> nat \<Rightarrow> string" where
  "toFixed toStr x f =
     (case x of
        NaN \<Rightarrow> ''NaN''
      | PosInfinity \<Rightarrow> ''Infinity''
      | NegInfinity \<Rightarrow> ''-Infinity''
      | Finite r \<Rightarrow>
          (let s = (if r < 0 then ''-'' else '''');
               a = \<bar>r\<bar>
           in if 10 ^ 21 \<le> a then s @ toStr a
              else
                (let n = nat \<lfloor>a * 10 ^ f + 1 / 2\<rfloor>;
                     m = digits10 n
                 in if f \<noteq> 0 then
                      (let k = length m;
                           z = (if k \<le> f then replicate (f + 1 - k) CHR ''0'' else []);
                           m' = z @ m;
                           k' = length m'
                       in s @ take (k' - f) m' @ ''.'' @ drop (k' - f) m')
                    else s @ m)))"



section \<open>Sheets and workbooks (the part of SheetJS the script uses)\<close>

text \<open>
  A worksheet is kept as the rows of its used range, from row 1 down to the last row of
  \<open>!ref\<close> (no \<open>!ref\<close>: no rows); a row is its cells from column A on, \<open>None\<close> where the
  sheet has no cell. Cell texts are what the script writes and reads; number formats, cell
  types and styles of SheetJS are outside the model.
\<close>

type_synonym cell = "string option"
type_synonym row = "cell list"
type_synonym sheet = "row list"

record workbook =
  SheetNames :: "string list"
  Sheets :: "string \<rightharpoonup> sheet"

datatype exn = Exn string

definition blank_row :: "row \<Rightarrow> bool" where
  "blank_row r = list_all (\<lambda>c. c = None) r"

text \<open>\<open>XLSX.utils.sheet_to_json(sheet, { header: 1, blankrows: false })\<close>: the rows as
  arrays, rows without any cell left out. The array of a row ends at its last cell.\<close>

definition row_array :: "row \<Rightarrow> row" where
  "row_array r = rev (dropWhile (\<lambda>c. c = None) (rev r))"

definition sheet_to_json :: "sheet \<Rightarrow> row list" where
  "sheet_to_json sheet = map row_array (filter (\<lambda>r. \<not> blank_row r) sheet)"

text \<open>\<open>XLSX.utils.aoa_to_sheet(aoa)\<close>: a sheet holding the given rows from A1.\<close>

definition aoa_to_sheet :: "row list \<Rightarrow> sheet" where
  "aoa_to_sheet aoa = aoa"

text \<open>Writing an array into a row from column A: an \<open>undefined\<close> entry leaves the cell
  as it is, any other entry replaces it.\<close>

fun overlay :: "row \<Rightarrow> row \<Rightarrow> row" where
  "overlay [] old = old"
| "overlay (d # ds) [] = d # overlay ds []"
| "overlay (d # ds) (x # xs) = (case d of None \<Rightarrow> x | Some v \<Rightarrow> Some v) # overlay ds xs"

definition put_row :: "sheet \<Rightarrow> nat \<Rightarrow> row \<Rightarrow> sheet" where
  "put_row sheet R data =
     (let padded = sheet @ replicate (Suc R - length sheet) []
      in padded[R := overlay data (padded ! R)])"

fun add_rows :: "sheet \<Rightarrow> nat \<Rightarrow> row list \<Rightarrow> sheet" where
  "add_rows sheet R [] = sheet"
| "add_rows sheet R (d # ds) = add_rows (put_row sheet R d) (Suc R) ds"

text \<open>The two origins the script passes to \<open>sheet_add_aoa\<close>: \<open>"A1"\<close>, and \<open>-1\<close> (the row
  below the last row of the sheet's range).\<close>

datatype origin = OriginA1 | OriginBelow

definition sheet_add_aoa :: "sheet \<Rightarrow> row list \<Rightarrow> origin \<Rightarrow> sheet" where
  "sheet_add_aoa sheet data origin =
     add_rows sheet (case origin of OriginA1 \<Rightarrow> 0 | OriginBelow \<Rightarrow> length sheet) data"

definition book_new :: workbook where
  "book_new = \<lparr>SheetNames = [], Sheets = Map.empty\<rparr>"

text \<open>\<open>XLSX.utils.book_append_sheet\<close> refuses a name the workbook already has.\<close>

definition book_append_sheet :: "workbook \<Rightarrow> sheet \<Rightarrow> string \<Rightarrow> exn + workbook" where
  "book_append_sheet wb sheet nm =
     (if nm \<in> set (SheetNames wb) then Inl (Exn ''Error'')
      else Inr (wb\<lparr>SheetNames := SheetNames wb @ [nm], Sheets := (Sheets wb)(nm \<mapsto> sheet)\<rparr>))"

section \<open>The document helpers of script.js\<close>

definition header_row :: row where
  "header_row = map Some EXCEL_HEADERS"

definition createWorkbookWithHeaders :: "exn + workbook" where
  "createWorkbookWithHeaders =
     (let workbook = book_new;
          sheet = aoa_to_sheet [header_row]
      in book_append_sheet workbook sheet EXCEL_SHEET_NAME)"

definition appendRowToSheet :: "sheet \<Rightarrow> row \<Rightarrow> sheet" where
  "appendRowToSheet sheet row =
     (let allRows = sheet_to_json sheet;
          sheet1 = (if length allRows = 0 then sheet_add_aoa sheet [header_row] OriginA1 else sheet)
      in sheet_add_aoa sheet1 [row] OriginBelow)"

record entry =
  entry_id :: string
  date :: string
  name :: string
  whatsapp :: string
  address :: string
  totalVolume :: number

text \<open>The array literal of lines 193 to 199.\<close>

definition entryRow :: "(rat \<Rightarrow> string) \<Rightarrow> entry \<Rightarrow> row" where
  "entryRow toStr e =
     [Some (date e), Some (name e), Some (whatsapp e), Some (address e),
      Some (toFixed toStr (totalVolume e) 3)]"

text \<open>
  Lines 186 to 191 of \<open>appendCustomerToExcel\<close>: the sheet of the fixed name, or a new one
  that is registered in the workbook. The sheet object is shared with the workbook, so the
  second component is the workbook as it stands after the registration.
\<close>

definition getOrCreateSheet :: "workbook \<Rightarrow> sheet \<times> workbook" where
  "getOrCreateSheet workbook =
     (case Sheets workbook EXCEL_SHEET_NAME of
        Some sheet \<Rightarrow> (sheet, workbook)
      | None \<Rightarrow>
          (let sheet = aoa_to_sheet [header_row]
           in (sheet, workbook\<lparr>Sheets := (Sheets workbook)(EXCEL_SHEET_NAME \<mapsto> sheet),
                               SheetNames := SheetNames workbook @ [EXCEL_SHEET_NAME]\<rparr>)))"

section \<open>The browser around the script\<close>

text \<open>
  A file handle is an opaque capability with a name. Permission states are the three
  answers of \<open>queryPermission\<close> and \<open>requestPermission\<close>.
\<close>

datatype handle = FileHandle (handle_id: nat) (handle_name: string)

datatype permission = Granted | Denied | Prompt

text \<open>Every call the script makes to a collaborator is recorded, in order.\<close>

datatype 'b event =
    EvOpenDb
  | EvPut handle
  | EvGet
  | EvShowSaveFilePicker
  | EvQueryPermission handle
  | EvRequestPermission handle
  | EvGetFile handle
  | EvArrayBuffer handle
  | EvCreateWritable handle
  | EvWrite handle 'b
  | EvClose handle
  | EvClock

text \<open>
  The state the script acts on: the one slot of the IndexedDB object store (key
  \<open>customerExcelHandle\<close>), the contents of the files behind the handles, the element
  \<open>#excelStatus\<close> (\<open>None\<close>: the page has no such element; otherwise its text and whether
  it carries the class \<open>error\<close>), and the record of collaborator calls. The contents of a
  file are of an unspecified type \<open>'b\<close>: the script looks at them only through
  \<open>File.size\<close> and \<open>XLSX.read\<close> and makes them only with \<open>XLSX.write\<close>. Files change
  only by a write of the script that reaches \<open>close\<close>.
\<close>

record 'b world =
  handleStore :: "handle option"
  files :: "handle \<Rightarrow> 'b"
  excelStatus :: "(string \<times> bool) option"
  trace :: "'b event list"

text \<open>
  How the transaction of \<open>saveFileHandle\<close> ends: with the event \<open>complete\<close>; with the
  event \<open>error\<close> (or an exception thrown while the transaction is set up), which carries an
  error; or with the event \<open>abort\<close> alone, as when the commit fails after the \<open>put\<close>
  request has succeeded.
\<close>

datatype tx_outcome = TxComplete | TxError exn | TxAbort

text \<open>
  What the collaborators answer. Every answer may depend on the moment of the call (the
  number of collaborator calls made before it), so any sequence of answers, failures
  included, is some environment. \<open>Some e\<close> or \<open>Inl e\<close> is the exception the call throws
  or rejects with. A promise that the browser itself returns is taken to settle; the
  promises that the script builds around IndexedDB events settle when one of the events
  the script listens to arrives.
\<close>

record 'b env =
  has_XLSX :: bool
  has_indexedDB :: bool
  has_showSaveFilePicker :: bool
  db_open :: "nat \<Rightarrow> exn option"
  tx_put :: "nat \<Rightarrow> tx_outcome"
  tx_get :: "nat \<Rightarrow> exn option"
  show_save_file_picker :: "nat \<Rightarrow> exn + handle"
  query_permission :: "nat \<Rightarrow> handle \<Rightarrow> exn + permission"
  request_permission :: "nat \<Rightarrow> handle \<Rightarrow> exn + permission"
  get_file :: "nat \<Rightarrow> handle \<Rightarrow> exn option"
  array_buffer :: "nat \<Rightarrow> handle \<Rightarrow> exn option"
  create_writable :: "nat \<Rightarrow> handle \<Rightarrow> exn option"
  stream_write :: "nat \<Rightarrow> handle \<Rightarrow> exn option"
  stream_close :: "nat \<Rightarrow> handle \<Rightarrow> exn option"
  blob_size :: "'b \<Rightarrow> nat"
  xlsx_read :: "'b \<Rightarrow> exn + workbook"
  xlsx_write :: "workbook \<Rightarrow> exn + 'b"
  number_toString :: "rat \<Rightarrow> string"
  toLocaleTimeString :: "nat \<Rightarrow> string"

subsection \<open>Asynchronous code: state passing with exceptions\<close>

text \<open>
  An \<open>async\<close> function takes the world and gives back how its promise ends, with the world
  as it left it: fulfilled with a value (\<open>Inr\<close>), rejected with an exception
  (\<open>Inl (Thrown e)\<close>), or never settled (\<open>Inl Pending\<close>). \<open>await\<close> is \<open>bind_io\<close>: what
  follows an \<open>await\<close> runs only once the awaited promise is fulfilled. \<open>try/catch\<close> is
  \<open>catch_io\<close>: the handler runs on a rejection, and a promise that stays pending reaches
  neither the handler nor the code after the \<open>try\<close>.
\<close>

datatype halt = Thrown exn | Pending

type_synonym ('b, 'a) io = "'b world \<Rightarrow> (halt + 'a) \<times> 'b world"

definition return_io :: "'a \<Rightarrow> ('b, 'a) io" where
  "return_io x w = (Inr x, w)"

definition throw_io :: "exn \<Rightarrow> ('b, 'a) io" where
  "throw_io e w = (Inl (Thrown e), w)"

definition pending_io :: "('b, 'a) io" where
  "pending_io w = (Inl Pending, w)"

definition bind_io :: "('b, 'a) io \<Rightarrow> ('a \<Rightarrow> ('b, 'c) io) \<Rightarrow> ('b, 'c) io" where
  "bind_io m f w = (case m w of (Inl e, w') \<Rightarrow> (Inl e, w') | (Inr x, w') \<Rightarrow> f x w')"

definition catch_io :: "('b, 'a) io \<Rightarrow> (exn \<Rightarrow> ('b, 'a) io) \<Rightarrow> ('b, 'a) io" where
  "catch_io m h w =
     (case m w of
        (Inl (Thrown e), w') \<Rightarrow> h e w'
      | (Inl Pending, w') \<Rightarrow> (Inl Pending, w')
      | (Inr x, w') \<Rightarrow> (Inr x, w'))"

text \<open>An answer that returns or throws, as the end of a promise.\<close>

definition settled :: "exn + 'a \<Rightarrow> halt + 'a" where
  "settled r = (case r of Inl e \<Rightarrow> Inl (Thrown e) | Inr x \<Rightarrow> Inr x)"

definition lift_io :: "exn + 'a \<Rightarrow> ('b, 'a) io" where
  "lift_io r w = (settled r, w)"

text \<open>A collaborator call: it is recorded, and it returns or throws what the environment
  answers at that moment.\<close>

definition call_io :: "'b event \<Rightarrow> (nat \<Rightarrow> exn + 'a) \<Rightarrow> ('b, 'a) io" where
  "call_io ev answer w = (settled (answer (length (trace w))), w\<lparr>trace := trace w @ [ev]\<rparr>)"

definition failing :: "exn option \<Rightarrow> exn + unit" where
  "failing r = (case r of None \<Rightarrow> Inr () | Some e \<Rightarrow> Inl e)"

subsection \<open>Status line and handle store\<close>

definition setExcelStatus :: "string \<Rightarrow> bool \<Rightarrow> ('b, unit) io" where
  "setExcelStatus message isError w =
     (case excelStatus w of
        None \<Rightarrow> (Inr (), w)
      | Some status \<Rightarrow> (Inr (), w\<lparr>excelStatus := Some (''Excel: '' @ message, isError)\<rparr>))"

text \<open>Lines 16 to 30. The promise of \<open>openHandleDb\<close> is resolved by the \<open>success\<close> of the
  open request and rejected by its \<open>error\<close>, the two events such a request ends with.\<close>

definition openHandleDb :: "'b env \<Rightarrow> ('b, unit) io" where
  "openHandleDb env = call_io EvOpenDb (\<lambda>t. failing (db_open env t))"

text \<open>
  Lines 32 to 40. The promise of \<open>saveFileHandle\<close> is resolved by \<open>tx.oncomplete\<close> and
  rejected by \<open>tx.onerror\<close>; the script sets no \<open>tx.onabort\<close>, so after a transaction that
  ends with the event \<open>abort\<close> alone nothing settles the promise. The handle is stored when
  the transaction completes and not otherwise.
\<close>

definition saveFileHandle :: "'b env \<Rightarrow> handle \<Rightarrow> ('b, unit) io" where
  "saveFileHandle env h =
     bind_io (openHandleDb env) (\<lambda>db.
     bind_io (call_io (EvPut h) (\<lambda>t. Inr (tx_put env t))) (\<lambda>outcome.
       case outcome of
         TxComplete \<Rightarrow> (\<lambda>w. (Inr (), w\<lparr>handleStore := Some h\<rparr>))
       | TxError e \<Rightarrow> throw_io e
       | TxAbort \<Rightarrow> pending_io))"

text \<open>Lines 42 to 50. The promise of \<open>getSavedFileHandle\<close> hangs on the \<open>get\<close> request,
  which ends with \<open>success\<close> or with \<open>error\<close>; the script listens to both.\<close>

definition getSavedFileHandle :: "'b env \<Rightarrow> ('b, handle option) io" where
  "getSavedFileHandle env =
     bind_io (openHandleDb env) (\<lambda>db.
     bind_io (call_io EvGet (\<lambda>t. failing (tx_get env t))) (\<lambda>done. (\<lambda>w.
       (Inr (handleStore w), w))))"

subsection \<open>Permission\<close>

definition queryPermission :: "'b env \<Rightarrow> handle \<Rightarrow> ('b, permission) io" where
  "queryPermission env h = call_io (EvQueryPermission h) (\<lambda>t. query_permission env t h)"

definition requestPermission :: "'b env \<Rightarrow> handle \<Rightarrow> ('b, permission) io" where
  "requestPermission env h = call_io (EvRequestPermission h) (\<lambda>t. request_permission env t h)"

definition ensureReadWritePermission :: "'b env \<Rightarrow> handle option \<Rightarrow> ('b, bool) io" where
  "ensureReadWritePermission env handle =
     (case handle of
        None \<Rightarrow> return_io False
      | Some h \<Rightarrow>
          bind_io (queryPermission env h) (\<lambda>current.
          if current = Granted then return_io True
          else bind_io (requestPermission env h) (\<lambda>requested.
               return_io (requested = Granted))))"

definition hasReadWritePermission :: "'b env \<Rightarrow> handle option \<Rightarrow> ('b, bool) io" where
  "hasReadWritePermission env handle =
     (case handle of
        None \<Rightarrow> return_io False
      | Some h \<Rightarrow>
          catch_io
            (bind_io (queryPermission env h) (\<lambda>current. return_io (current = Granted)))
            (\<lambda>error. return_io False))"

subsection \<open>Files\<close>

text \<open>\<open>handle.getFile()\<close> gives the contents at that moment; \<open>file.arrayBuffer()\<close> reads
  them.\<close>

definition getFile :: "'b env \<Rightarrow> handle \<Rightarrow> ('b, 'b) io" where
  "getFile env h =
     bind_io (call_io (EvGetFile h) (\<lambda>t. failing (get_file env t h))) (\<lambda>done. (\<lambda>w.
       (Inr (files w h), w)))"

definition arrayBuffer :: "'b env \<Rightarrow> handle \<Rightarrow> 'b \<Rightarrow> ('b, 'b) io" where
  "arrayBuffer env h file =
     bind_io (call_io (EvArrayBuffer h) (\<lambda>t. failing (array_buffer env t h))) (\<lambda>done.
     return_io file)"

text \<open>The written data replaces the contents of the file when \<open>close\<close> succeeds, and
  not before.\<close>

definition writeWorkbookToHandle :: "'b env \<Rightarrow> workbook \<Rightarrow> handle \<Rightarrow> ('b, unit) io" where
  "writeWorkbookToHandle env workbook h =
     bind_io (lift_io (xlsx_write env workbook)) (\<lambda>data.
     bind_io (call_io (EvCreateWritable h) (\<lambda>t. failing (create_writable env t h))) (\<lambda>writable.
     bind_io (call_io (EvWrite h data) (\<lambda>t. failing (stream_write env t h))) (\<lambda>written.
     bind_io (call_io (EvClose h) (\<lambda>t. failing (stream_close env t h))) (\<lambda>closed. (\<lambda>w.
       (Inr (), w\<lparr>files := (files w)(h := data)\<rparr>))))))"

section \<open>The three operations\<close>

text \<open>Lines 125 to 129 of \<open>connectExcelFile\<close>: a target of size zero gets the workbook
  that holds the header row only; any other target is not written.\<close>

definition initialiseIfEmpty :: "'b env \<Rightarrow> handle \<Rightarrow> ('b, unit) io" where
  "initialiseIfEmpty env handle =
     bind_io (getFile env handle) (\<lambda>existingFile.
     if blob_size env existingFile = 0 then
       bind_io (lift_io createWorkbookWithHeaders) (\<lambda>workbook.
       writeWorkbookToHandle env workbook handle)
     else return_io ())"

definition connectExcelFile :: "'b env \<Rightarrow> ('b, bool) io" where
  "connectExcelFile env =
     (if \<not> has_showSaveFilePicker env \<or> \<not> has_indexedDB env then
        bind_io (setExcelStatus ''Not supported in this browser. Use latest Chrome/Edge.'' True) (\<lambda>u.
        return_io False)
      else if \<not> has_XLSX env then
        bind_io (setExcelStatus ''Excel library not loaded. Check internet and reload.'' True) (\<lambda>u.
        return_io False)
      else
        catch_io
          (bind_io (call_io EvShowSaveFilePicker (show_save_file_picker env)) (\<lambda>handle.
           bind_io (ensureReadWritePermission env (Some handle)) (\<lambda>hasPermission.
           if \<not> hasPermission then
             bind_io (setExcelStatus ''Permission denied for Excel file.'' True) (\<lambda>u.
             return_io False)
           else
             bind_io (saveFileHandle env handle) (\<lambda>saved.
             bind_io (initialiseIfEmpty env handle) (\<lambda>initialised.
             bind_io (setExcelStatus (''Connected ('' @ handle_name handle @ '')'') False) (\<lambda>u.
             return_io True))))))
          (\<lambda>error.
             if error = Exn ''AbortError'' then
               bind_io (setExcelStatus ''Connection cancelled.'' False) (\<lambda>u.
               return_io False)
             else
               bind_io (setExcelStatus ''Failed to connect Excel file.'' True) (\<lambda>u.
               return_io False)))"

text \<open>
  Lines 170 to 203: what \<open>appendCustomerToExcel\<close> does once \<open>handle\<close> has its final value.
  \<open>handle.getFile()\<close> on \<open>null\<close> would be a TypeError. \<open>appendRowToSheet\<close> changes the
  sheet object that the workbook holds, so the workbook written is the one with the changed
  sheet.
\<close>

definition appendWithHandle :: "'b env \<Rightarrow> entry \<Rightarrow> handle option \<Rightarrow> ('b, bool) io" where
  "appendWithHandle env e handle =
     bind_io (ensureReadWritePermission env handle) (\<lambda>hasPermission.
     if \<not> hasPermission then
       bind_io (setExcelStatus ''No permission to update Excel file.'' True) (\<lambda>u.
       return_io False)
     else
       (case handle of
          None \<Rightarrow> throw_io (Exn ''TypeError'')
        | Some h \<Rightarrow>
            bind_io (getFile env h) (\<lambda>file.
            bind_io
              (if blob_size env file > 0 then
                 bind_io (arrayBuffer env h file) (\<lambda>buffer.
                 lift_io (xlsx_read env buffer))
               else lift_io createWorkbookWithHeaders) (\<lambda>workbook.
            (case getOrCreateSheet workbook of (sheet, workbook1) \<Rightarrow>
               (let sheet' = appendRowToSheet sheet (entryRow (number_toString env) e);
                    workbook2 = workbook1\<lparr>Sheets := (Sheets workbook1)(EXCEL_SHEET_NAME \<mapsto> sheet')\<rparr>
                in bind_io (writeWorkbookToHandle env workbook2 h) (\<lambda>written.
                   bind_io (call_io EvClock (\<lambda>t. Inr (toLocaleTimeString env t))) (\<lambda>now.
                   bind_io (setExcelStatus (''Updated at '' @ now) False) (\<lambda>u.
                   return_io True)))))))))"

definition appendCustomerToExcel :: "'b env \<Rightarrow> entry \<Rightarrow> bool \<Rightarrow> ('b, bool) io" where
  "appendCustomerToExcel env e autoConnect =
     (if \<not> has_XLSX env then
        bind_io (setExcelStatus ''Excel library not loaded. Check internet and reload.'' True) (\<lambda>u.
        return_io False)
      else if \<not> has_indexedDB env \<or> \<not> has_showSaveFilePicker env then
        bind_io (setExcelStatus ''Browser does not support direct Excel autosave.'' True) (\<lambda>u.
        return_io False)
      else
        catch_io
          (bind_io (getSavedFileHandle env) (\<lambda>handle.
           if handle = None then
             (if autoConnect then
                bind_io (connectExcelFile env) (\<lambda>connected.
                if \<not> connected then return_io False
                else bind_io (getSavedFileHandle env) (\<lambda>handle'.
                     appendWithHandle env e handle'))
              else
                bind_io (setExcelStatus ''Not connected. Click Connect Excel.'' True) (\<lambda>u.
                return_io False))
           else appendWithHandle env e handle))
          (\<lambda>error.
             bind_io (setExcelStatus ''Could not update Excel file.'' True) (\<lambda>u.
             return_io False)))"

definition restoreExcelConnectionStatus :: "'b env \<Rightarrow> ('b, unit) io" where
  "restoreExcelConnectionStatus env =
     (if \<not> has_indexedDB env \<or> \<not> has_showSaveFilePicker env then
        setExcelStatus ''Feature requires latest Chrome/Edge.'' True
      else
        catch_io
          (bind_io (getSavedFileHandle env) (\<lambda>handle.
           case handle of
             None \<Rightarrow> setExcelStatus ''Not connected'' False
           | Some h \<Rightarrow>
               bind_io (hasReadWritePermission env handle) (\<lambda>hasPermission.
               if \<not> hasPermission then
                 setExcelStatus ''Re-connect needed (permission not granted)'' True
               else setExcelStatus (''Connected ('' @ handle_name h @ '')'') False)))
          (\<lambda>error. setExcelStatus ''Connection unavailable. Re-connect Excel.'' True))"

section \<open>Notions used in the statements and proofs\<close>

definition preserves :: "('b world \<Rightarrow> 'x) \<Rightarrow> ('b, 'a) io \<Rightarrow> bool" where
  "preserves p m = (\<forall>w. p (snd (m w)) = p w)"

definition hoare :: "('b world \<Rightarrow> bool) \<Rightarrow> ('b, 'a) io \<Rightarrow> (halt + 'a \<Rightarrow> 'b world \<Rightarrow> bool) \<Rightarrow> bool" where
  "hoare P m Q = (\<forall>w. P w \<longrightarrow> Q (fst (m w)) (snd (m w)))"

text \<open>From the states of \<open>P\<close> the promise of \<open>m\<close> is fulfilled or rejected: it does not
  stay pending.\<close>

definition settles :: "('b world \<Rightarrow> bool) \<Rightarrow> ('b, 'a) io \<Rightarrow> bool" where
  "settles P m = (\<forall>w. P w \<longrightarrow> fst (m w) \<noteq> Inl Pending)"

definition is_prompt :: "'b event \<Rightarrow> bool" where
  "is_prompt ev = (case ev of EvShowSaveFilePicker \<Rightarrow> True | EvRequestPermission h \<Rightarrow> True | _ \<Rightarrow> False)"

definition is_write :: "'b event \<Rightarrow> bool" where
  "is_write ev = (case ev of EvCreateWritable h \<Rightarrow> True | EvWrite h d \<Rightarrow> True | EvClose h \<Rightarrow> True | _ \<Rightarrow> False)"

definition prompts :: "'b world \<Rightarrow> 'b event list" where
  "prompts w = filter is_prompt (trace w)"

definition writes :: "'b world \<Rightarrow> 'b event list" where
  "writes w = filter is_write (trace w)"

subsection \<open>A sample browser\<close>

text \<open>
  Contents of files for examples: no bytes, the bytes of a workbook, or bytes that are not a
  workbook. In the sample environment every collaborator call succeeds, permission is
  granted without a prompt, the user picks \<open>sample_handle\<close>, and \<open>XLSX.read\<close> gives back
  the workbook that \<open>XLSX.write\<close> was given. Its \<open>number_toString\<close> is right for
  \<open>10^21\<close>, the one large value the examples use.
\<close>

datatype content = NoBytes | Document workbook | OtherBytes

definition sample_handle :: handle where
  "sample_handle = FileHandle 1 ''customer_data.xlsx''"

definition sample_env :: "content env" where
  "sample_env =
     \<lparr>has_XLSX = True, has_indexedDB = True, has_showSaveFilePicker = True,
      db_open = (\<lambda>t. None), tx_put = (\<lambda>t. TxComplete), tx_get = (\<lambda>t. None),
      show_save_file_picker = (\<lambda>t. Inr sample_handle),
      query_permission = (\<lambda>t h. Inr Granted),
      request_permission = (\<lambda>t h. Inr Granted),
      get_file = (\<lambda>t h. None), array_buffer = (\<lambda>t h. None),
      create_writable = (\<lambda>t h. None), stream_write = (\<lambda>t h. None),
      stream_close = (\<lambda>t h. None),
      blob_size = (\<lambda>c. case c of NoBytes \<Rightarrow> 0 | Document wb \<Rightarrow> 1 | OtherBytes \<Rightarrow> 1),
      xlsx_read = (\<lambda>c. case c of Document wb \<Rightarrow> Inr wb | _ \<Rightarrow> Inl (Exn ''Error'')),
      xlsx_write = (\<lambda>wb. Inr (Document wb)),
      number_toString = (\<lambda>r. ''1e+21''),
      toLocaleTimeString = (\<lambda>t. ''10:15:00 AM'')\<rparr>"

definition sample_world :: "handle option \<Rightarrow> content \<Rightarrow> content world" where
  "sample_world stored c =
     \<lparr>handleStore = stored, files = (\<lambda>h. c), excelStatus = Some ([], False), trace = []\<rparr>"

definition alice :: entry where
  "alice = \<lparr>entry_id = ''1'', date = ''2024-01-01'', name = ''Alice'', whatsapp = ''1234567890'',
            address = ''12 Main St'', totalVolume = Finite (12345 / 1000)\<rparr>"

definition bob :: entry where
  "bob = \<lparr>entry_id = ''2'', date = ''2024-01-02'', name = ''Bob'', whatsapp = ''Not provided'',
          address = ''Not provided'', totalVolume = Finite (1 / 2)\<rparr>"


definition other_workbook :: workbook where
  "other_workbook = \<lparr>SheetNames = [''Sheet1''], Sheets = [''Sheet1'' \<mapsto> [[Some ''x'']]]\<rparr>"

text \<open>Browsers in which one collaborator misbehaves: the user dismisses the file picker;
  the file cannot be opened for writing.\<close>

definition cancelling_env :: "content env" where
  "cancelling_env = sample_env\<lparr>show_save_file_picker := (\<lambda>t. Inl (Exn ''AbortError''))\<rparr>"

definition unwritable_env :: "content env" where
  "unwritable_env = sample_env\<lparr>create_writable := (\<lambda>t h. Some (Exn ''NotAllowedError''))\<rparr>"

text \<open>The workbook that \<open>createWorkbookWithHeaders\<close> returns.\<close>

definition header_workbook :: workbook where
  "header_workbook =
     \<lparr>SheetNames = [EXCEL_SHEET_NAME], Sheets = [EXCEL_SHEET_NAME \<mapsto> [header_row]]\<rparr>"

text \<open>A browser in which the database cannot be opened and permission queries throw.\<close>

definition hostile_env :: "content env" where
  "hostile_env = sample_env\<lparr>db_open := (\<lambda>t. Some (Exn ''UnknownError'')),
                             query_permission := (\<lambda>t h. Inl (Exn ''SecurityError''))\<rparr>"

text \<open>The status line shows a text set by the script (if the page has the element at
  all), and a success is not shown as an error.\<close>

definition status_set :: "bool \<Rightarrow> bool \<Rightarrow> 'b world \<Rightarrow> bool" where
  "status_set E b w =
     (E \<longrightarrow> (\<exists>msg err. excelStatus w = Some (''Excel: '' @ msg, err) \<and> (b \<longrightarrow> \<not> err)))"

subsection \<open>The document in the target file, and sequences of calls\<close>

text \<open>
  Lines 179 to 184: the workbook the script works on for given file contents (an empty file
  stands for the workbook with the header row only), and the rows of its sheet of the fixed
  name as \<open>sheet_to_json\<close> lists them.
\<close>

definition read_workbook :: "'b env \<Rightarrow> 'b \<Rightarrow> exn + workbook" where
  "read_workbook env file =
     (if blob_size env file > 0 then xlsx_read env file else createWorkbookWithHeaders)"

definition document_rows :: "'b env \<Rightarrow> 'b \<Rightarrow> row list option" where
  "document_rows env file =
     (case read_workbook env file of
        Inl e \<Rightarrow> None
      | Inr wb \<Rightarrow> map_option sheet_to_json (Sheets wb EXCEL_SHEET_NAME))"

text \<open>What is asked of SheetJS: a written workbook is not empty, and reading it back
  gives the rows of the sheet that was written.\<close>

definition codec_ok :: "'b env \<Rightarrow> bool" where
  "codec_ok env =
     (\<forall>wb data. xlsx_write env wb = Inr data \<longrightarrow>
        0 < blob_size env data \<and>
        (\<exists>wb'. xlsx_read env data = Inr wb' \<and>
           map_option sheet_to_json (Sheets wb' EXCEL_SHEET_NAME) =
           map_option sheet_to_json (Sheets wb EXCEL_SHEET_NAME)))"

text \<open>Calls of \<open>appendCustomerToExcel\<close> one after the other, each awaited before the next
  starts, with the results in call order; and the rows of the calls that returned \<open>true\<close>.\<close>

fun append_calls :: "'b env \<Rightarrow> (entry \<times> bool) list \<Rightarrow> 'b world \<Rightarrow> (halt + bool) list \<times> 'b world" where
  "append_calls env [] w = ([], w)"
| "append_calls env ((e, autoConnect) # calls) w =
     (case appendCustomerToExcel env e autoConnect w of
        (r, w1) \<Rightarrow> (case append_calls env calls w1 of (rs, w2) \<Rightarrow> (r # rs, w2)))"

fun appended_rows :: "(rat \<Rightarrow> string) \<Rightarrow> (halt + bool) list \<Rightarrow> (entry \<times> bool) list \<Rightarrow> row list" where
  "appended_rows toStr (r # rs) ((e, autoConnect) # calls) =
     (if r = Inr True then [entryRow toStr e] else []) @ appended_rows toStr rs calls"
| "appended_rows toStr rs calls = []"

text \<open>A browser in which the transaction that stores the handle fails.\<close>

definition unsaving_env :: "content env" where
  "unsaving_env = sample_env\<lparr>tx_put := (\<lambda>t. TxError (Exn ''QuotaExceededError''))\<rparr>"

text \<open>A file is a fit start when it is empty or its sheet holds the header row only; a
  handle is pickable when the file picker can return it at some moment.\<close>

definition empty_or_header_only :: "'b env \<Rightarrow> 'b \<Rightarrow> bool" where
  "empty_or_header_only env file =
     (blob_size env file = 0 \<or> document_rows env file = Some [header_row])"

definition pickable :: "'b env \<Rightarrow> handle \<Rightarrow> bool" where
  "pickable env h = (\<exists>t. show_save_file_picker env t = Inr h)"

text \<open>The start of a sequence of calls: the target of the stored handle is a fit start,
  or no handle is stored and every file the user can pick is one.\<close>

definition fresh_start :: "'b env \<Rightarrow> 'b world \<Rightarrow> bool" where
  "fresh_start env w =
     (case handleStore w of
        Some h \<Rightarrow> empty_or_header_only env (files w h)
      | None \<Rightarrow> (\<forall>h. pickable env h \<longrightarrow> empty_or_header_only env (files w h)))"

text \<open>What holds between the calls of a sequence: with no handle stored, nothing has been
  appended and every pickable file is still a fit start; with a handle stored, its document
  holds the header row and the rows appended so far, and is not empty once something was
  written.\<close>

definition rows_inv :: "'b env \<Rightarrow> 'b world \<Rightarrow> row list \<Rightarrow> bool \<Rightarrow> bool" where
  "rows_inv env w rows written =
     (case handleStore w of
        None \<Rightarrow>
          rows = [] \<and> \<not> written \<and>
          (\<forall>h. pickable env h \<longrightarrow> document_rows env (files w h) = Some [header_row])
      | Some h \<Rightarrow>
          document_rows env (files w h) = Some (header_row # rows) \<and>
          (written \<longrightarrow> 0 < blob_size env (files w h)))"

text \<open>Bytes that the script cannot decode: not empty, and \<open>XLSX.read\<close> throws on them.
  The script has no other test of what a file holds. The target of a call is the file of
  the stored handle, or, with no handle stored, whichever file the user picks.\<close>

definition undecodable :: "'b env \<Rightarrow> 'b \<Rightarrow> bool" where
  "undecodable env f = (0 < blob_size env f \<and> (\<exists>err. xlsx_read env f = Inl err))"

definition target_undecodable :: "'b env \<Rightarrow> 'b world \<Rightarrow> bool" where
  "target_undecodable env w =
     (case handleStore w of
        Some h \<Rightarrow> undecodable env (files w h)
      | None \<Rightarrow> (\<forall>h. pickable env h \<longrightarrow> undecodable env (files w h)))"

text \<open>
  A browser whose \<open>XLSX.read\<close> takes bytes that are no workbook for text, as SheetJS does
  with a plain text file, and gives a workbook with the one sheet \<open>Sheet1\<close>; and a browser
  in which the transaction that stores the handle is aborted at its commit.
\<close>

definition lenient_env :: "content env" where
  "lenient_env =
     sample_env\<lparr>xlsx_read := (\<lambda>c. case c of Document wb \<Rightarrow> Inr wb | _ \<Rightarrow> Inr other_workbook)\<rparr>"

definition aborting_env :: "content env" where
  "aborting_env = sample_env\<lparr>tx_put := (\<lambda>t. TxAbort)\<rparr>"

section \<open>Reasoning about asynchronous code\<close>

lemma settled_simps [simp]:
  "settled (Inl e) = Inl (Thrown e)"
  "settled (Inr x) = Inr x"
  "settled r = Inr x \<longleftrightarrow> r = Inr x"
  "settled r = Inl s \<longleftrightarrow> (\<exists>e. r = Inl e \<and> s = Thrown e)"
  "settled r \<noteq> Inl Pending"
  by (auto simp: settled_def split: sum.splits)

lemmas io_defs = return_io_def throw_io_def pending_io_def bind_io_def catch_io_def lift_io_def
  call_io_def failing_def

lemma preserves_return: "preserves p (return_io x)"
  by (simp add: preserves_def return_io_def)

lemma preserves_throw: "preserves p (throw_io e)"
  by (simp add: preserves_def throw_io_def)

lemma preserves_pending: "preserves p pending_io"
  by (simp add: preserves_def pending_io_def)

lemma preserves_lift: "preserves p (lift_io r)"
  by (simp add: preserves_def lift_io_def)

lemma preserves_bind:
  "preserves p m \<Longrightarrow> (\<And>x. preserves p (f x)) \<Longrightarrow> preserves p (bind_io m f)"
  by (auto simp: preserves_def bind_io_def split: prod.splits sum.splits) (metis snd_conv)+

lemma preserves_catch:
  "preserves p m \<Longrightarrow> (\<And>e. preserves p (h e)) \<Longrightarrow> preserves p (catch_io m h)"
  by (auto simp: preserves_def catch_io_def split: prod.splits sum.splits halt.splits)
     (metis snd_conv)+

lemma preserves_if:
  "(c \<Longrightarrow> preserves p a) \<Longrightarrow> (\<not> c \<Longrightarrow> preserves p b) \<Longrightarrow> preserves p (if c then a else b)"
  by simp

lemma preserves_case_option:
  "(ho = None \<Longrightarrow> preserves p a) \<Longrightarrow> (\<And>x. ho = Some x \<Longrightarrow> preserves p (b x)) \<Longrightarrow> preserves p (case ho of None \<Rightarrow> a | Some x \<Rightarrow> b x)"
  by (cases ho) auto

lemma preserves_case_prod:
  "(\<And>a b. preserves p (f a b)) \<Longrightarrow> preserves p (case ab of (a, b) \<Rightarrow> f a b)"
  by (cases ab) auto

lemma preserves_call:
  "(\<And>w. p (w\<lparr>trace := trace w @ [ev]\<rparr>) = p w) \<Longrightarrow> preserves p (call_io ev answer)"
  by (simp add: preserves_def call_io_def)

lemma preserves_setExcelStatus:
  "(\<And>w s. p (w\<lparr>excelStatus := s\<rparr>) = p w) \<Longrightarrow> preserves p (setExcelStatus msg err)"
  by (simp add: preserves_def setExcelStatus_def split: option.splits)

lemma preserves_case_tx:
  "preserves p a \<Longrightarrow> (\<And>e. preserves p (b e)) \<Longrightarrow> preserves p c \<Longrightarrow>
   preserves p (case outcome of TxComplete \<Rightarrow> a | TxError e \<Rightarrow> b e | TxAbort \<Rightarrow> c)"
  by (cases outcome) auto

lemmas preserves_intros =
  preserves_return preserves_throw preserves_pending preserves_lift preserves_bind preserves_catch
  preserves_if preserves_case_option preserves_case_prod preserves_case_tx preserves_call
  preserves_setExcelStatus

lemma preserves_D: "preserves p m \<Longrightarrow> m w = (r, w') \<Longrightarrow> p w' = p w"
  by (auto simp: preserves_def dest: spec[of _ w])


lemma hoareI: "(\<And>w r w'. P w \<Longrightarrow> m w = (r, w') \<Longrightarrow> Q r w') \<Longrightarrow> hoare P m Q"
  by (simp add: hoare_def)

lemma hoareD: "hoare P m Q \<Longrightarrow> P w \<Longrightarrow> m w = (r, w') \<Longrightarrow> Q r w'"
  by (auto simp: hoare_def dest: spec[of _ w])

lemma hoare_bind:
  assumes "hoare P m (\<lambda>r w. case r of Inl e \<Rightarrow> Q (Inl e) w | Inr x \<Rightarrow> R x w)"
    and "\<And>x. hoare (R x) (f x) Q"
  shows "hoare P (bind_io m f) Q"
proof (rule hoareI)
  fix w r w' assume P: "P w" and b: "bind_io m f w = (r, w')"
  obtain r1 w1 where m: "m w = (r1, w1)" by (cases "m w")
  from hoareD[OF assms(1) P m] b m show "Q r w'"
    by (cases r1) (auto simp: bind_io_def dest: hoareD[OF assms(2)])
qed

text \<open>Two rules for \<open>try/catch\<close>: one for a body that may stay pending, where the
  conclusion has to allow for that, and one for a body that settles from the states at
  hand.\<close>

lemma hoare_catch:
  assumes "hoare P m (\<lambda>r w. case r of Inl s \<Rightarrow> R s w | Inr x \<Rightarrow> Q (Inr x) w)"
    and "\<And>e. hoare (R (Thrown e)) (h e) Q"
    and "\<And>w. R Pending w \<Longrightarrow> Q (Inl Pending) w"
  shows "hoare P (catch_io m h) Q"
proof (rule hoareI)
  fix w r w' assume P: "P w" and b: "catch_io m h w = (r, w')"
  obtain r1 w1 where m: "m w = (r1, w1)" by (cases "m w")
  show "Q r w'"
  proof (cases r1)
    case (Inr x)
    with hoareD[OF assms(1) P m] b m show ?thesis by (simp add: catch_io_def)
  next
    case (Inl s)
    show ?thesis
    proof (cases s)
      case Pending
      with Inl hoareD[OF assms(1) P m] b m assms(3) show ?thesis by (auto simp: catch_io_def)
    next
      case (Thrown e)
      with Inl hoareD[OF assms(1) P m] b m have "R (Thrown e) w1" "h e w1 = (r, w')"
        by (simp_all add: catch_io_def)
      then show ?thesis by (rule hoareD[OF assms(2)])
    qed
  qed
qed

lemma hoare_catch_settled:
  assumes "hoare P m (\<lambda>r w. case r of Inl s \<Rightarrow> R s w | Inr x \<Rightarrow> Q (Inr x) w)"
    and "\<And>e. hoare (R (Thrown e)) (h e) Q"
    and "settles P m"
  shows "hoare P (catch_io m h) Q"
proof (rule hoare_catch[where R = "\<lambda>s w. s \<noteq> Pending \<and> R s w"])
  show "hoare P m (\<lambda>r w. case r of Inl s \<Rightarrow> s \<noteq> Pending \<and> R s w | Inr x \<Rightarrow> Q (Inr x) w)"
    using assms(1,3) by (auto simp: hoare_def settles_def split: sum.splits)
  show "\<And>e. hoare (\<lambda>w. Thrown e \<noteq> Pending \<and> R (Thrown e) w) (h e) Q"
    using assms(2) by (auto simp: hoare_def)
qed simp

lemma hoare_post: "hoare P m Q' \<Longrightarrow> (\<And>r w. Q' r w \<Longrightarrow> Q r w) \<Longrightarrow> hoare P m Q"
  by (auto simp: hoare_def)

lemma hoare_pre: "hoare P' m Q \<Longrightarrow> (\<And>w. P w \<Longrightarrow> P' w) \<Longrightarrow> hoare P m Q"
  by (auto simp: hoare_def)

lemma hoare_assume: "(C \<Longrightarrow> hoare P m Q) \<Longrightarrow> hoare (\<lambda>w. C \<and> P w) m Q"
  by (auto simp: hoare_def)

lemma hoare_preserves: "preserves p m \<Longrightarrow> hoare (\<lambda>w. P (p w)) m (\<lambda>r w. P (p w))"
  by (auto simp: hoare_def preserves_def)

lemma status_return:
  "bind_io (setExcelStatus msg err) (\<lambda>u. return_io b) w = (Inr b, snd (setExcelStatus msg err w))"
  by (simp add: bind_io_def return_io_def setExcelStatus_def split: option.splits)

lemma hoare_status_return:
  "(\<And>w. P w \<Longrightarrow> Q (Inr b) (snd (setExcelStatus msg err w))) \<Longrightarrow>
   hoare P (bind_io (setExcelStatus msg err) (\<lambda>u. return_io b)) Q"
  by (simp add: hoare_def status_return)

lemma hoare_if:
  "(c \<Longrightarrow> hoare P a Q) \<Longrightarrow> (\<not> c \<Longrightarrow> hoare P b Q) \<Longrightarrow> hoare P (if c then a else b) Q"
  by simp

lemma hoare_return: "(\<And>w. P w \<Longrightarrow> Q (Inr x) w) \<Longrightarrow> hoare P (return_io x) Q"
  by (simp add: hoare_def return_io_def)

text \<open>Which code settles whatever the collaborators answer.\<close>

lemma settles_pre: "settles P' m \<Longrightarrow> (\<And>w. P w \<Longrightarrow> P' w) \<Longrightarrow> settles P m"
  by (auto simp: settles_def)

lemma settles_return: "settles P (return_io x)"
  by (simp add: settles_def return_io_def)

lemma settles_throw: "settles P (throw_io e)"
  by (simp add: settles_def throw_io_def)

lemma settles_lift: "settles P (lift_io r)"
  by (simp add: settles_def lift_io_def)

lemma settles_call: "settles P (call_io ev answer)"
  by (simp add: settles_def call_io_def)

lemma settles_setExcelStatus: "settles P (setExcelStatus msg err)"
  by (simp add: settles_def setExcelStatus_def split: option.splits)

lemma settles_value: "settles P (\<lambda>w. (Inr (f w), g w))"
  by (simp add: settles_def)

lemma settles_bind:
  "settles P m \<Longrightarrow> (\<And>x. settles (\<lambda>w. True) (f x)) \<Longrightarrow> settles P (bind_io m f)"
  by (auto simp: settles_def bind_io_def split: prod.splits sum.splits)

lemma settles_catch:
  "settles P m \<Longrightarrow> (\<And>e. settles (\<lambda>w. True) (h e)) \<Longrightarrow> settles P (catch_io m h)"
  by (auto simp: settles_def catch_io_def split: prod.splits sum.splits halt.splits)

lemma settles_if:
  "(c \<Longrightarrow> settles P a) \<Longrightarrow> (\<not> c \<Longrightarrow> settles P b) \<Longrightarrow> settles P (if c then a else b)"
  by simp

lemma settles_case_option:
  "(ho = None \<Longrightarrow> settles P a) \<Longrightarrow> (\<And>x. ho = Some x \<Longrightarrow> settles P (b x)) \<Longrightarrow>
   settles P (case ho of None \<Rightarrow> a | Some x \<Rightarrow> b x)"
  by (cases ho) auto

lemma settles_case_prod:
  "(\<And>a b. settles P (f a b)) \<Longrightarrow> settles P (case ab of (a, b) \<Rightarrow> f a b)"
  by (cases ab) auto

lemmas settles_intros =
  settles_return settles_throw settles_lift settles_call settles_setExcelStatus settles_value
  settles_bind settles_catch settles_if settles_case_option settles_case_prod

lemma getSaved_settles: "settles P (getSavedFileHandle env)"
  unfolding getSavedFileHandle_def openHandleDb_def by (intro settles_intros)

lemma ensure_settles: "settles P (ensureReadWritePermission env handle)"
  unfolding ensureReadWritePermission_def queryPermission_def requestPermission_def
  by (intro settles_intros)

lemma hasPermission_settles: "settles P (hasReadWritePermission env handle)"
  unfolding hasReadWritePermission_def queryPermission_def by (intro settles_intros)

lemma getFile_settles: "settles P (getFile env h)"
  unfolding getFile_def by (intro settles_intros)

lemma arrayBuffer_settles: "settles P (arrayBuffer env h f)"
  unfolding arrayBuffer_def by (intro settles_intros)

lemma write_settles: "settles P (writeWorkbookToHandle env wb h)"
  unfolding writeWorkbookToHandle_def by (intro settles_intros)

lemma initialise_settles: "settles P (initialiseIfEmpty env h)"
  unfolding initialiseIfEmpty_def by (intro settles_intros getFile_settles write_settles)

lemma appendWithHandle_settles: "settles P (appendWithHandle env e handle)"
  unfolding appendWithHandle_def Let_def
  by (intro settles_intros ensure_settles getFile_settles arrayBuffer_settles write_settles)

lemma restore_settles: "settles P (restoreExcelConnectionStatus env)"
  unfolding restoreExcelConnectionStatus_def
  by (intro settles_intros getSaved_settles hasPermission_settles)

text \<open>\<open>saveFileHandle\<close> stays pending exactly when its transaction is aborted.\<close>

lemma saveFileHandle_pending:
  "fst (saveFileHandle env h w) = Inl Pending \<longleftrightarrow>
     db_open env (length (trace w)) = None \<and> tx_put env (Suc (length (trace w))) = TxAbort"
  by (auto simp: saveFileHandle_def openHandleDb_def io_defs split: option.splits tx_outcome.splits)

lemmas run_defs = appendCustomerToExcel_def appendWithHandle_def connectExcelFile_def
  initialiseIfEmpty_def restoreExcelConnectionStatus_def getSavedFileHandle_def saveFileHandle_def
  lenient_env_def aborting_env_def other_workbook_def
  openHandleDb_def ensureReadWritePermission_def hasReadWritePermission_def queryPermission_def
  requestPermission_def getFile_def arrayBuffer_def writeWorkbookToHandle_def setExcelStatus_def
  io_defs createWorkbookWithHeaders_def book_append_sheet_def book_new_def getOrCreateSheet_def
  sample_env_def sample_world_def sample_handle_def aoa_to_sheet_def EXCEL_SHEET_NAME_def

section \<open>Formatting the volume\<close>







lemma digits10_small: "n < 10 \<Longrightarrow> digits10 n = [digit_char n]"
  by (simp add: digits10.simps[of n])

lemma digits10_big: "\<not> n < 10 \<Longrightarrow> digits10 n = digits10 (n div 10) @ [digit_char (n mod 10)]"
  by (simp add: digits10.simps[of n])

lemma floor_rat_numeral: "\<lfloor>numeral a / numeral b :: rat\<rfloor> = numeral a div numeral b"
  by (metis floor_divide_of_int_eq of_int_numeral)

lemmas toFixed_eval = toFixed_def Let_def digits10_small digits10_big digit_char_def floor_rat_numeral

section \<open>Appending to a sheet\<close>

lemma sheet_to_json_append: "sheet_to_json (s @ t) = sheet_to_json s @ sheet_to_json t"
  by (simp add: sheet_to_json_def)

lemma overlay_Nil2: "overlay d [] = d"
  by (induction d) auto

lemma put_row_end: "put_row sheet (length sheet) data = sheet @ [data]"
  by (simp add: put_row_def overlay_Nil2)

lemma sheet_add_below: "sheet_add_aoa sheet [r] OriginBelow = sheet @ [r]"
  by (simp add: sheet_add_aoa_def put_row_end)

lemma overlay_blank:
  "blank_row old \<Longrightarrow> overlay (map Some xs) old = map Some xs @ drop (length xs) old"
  by (induction "map Some xs :: row" old arbitrary: xs rule: overlay.induct)
     (auto simp: blank_row_def)

lemma row_array_blank_tail:
  "blank_row t \<Longrightarrow> row_array (map Some xs @ t) = map Some xs"
proof -
  assume "blank_row t"
  then have "dropWhile (\<lambda>c. c = None) (rev t @ rev (map Some xs)) = dropWhile (\<lambda>c. c = None) (rev (map Some xs))"
    by (intro dropWhile_append2) (auto simp: blank_row_def list_all_iff)
  moreover have "dropWhile (\<lambda>c. c = None) (rev (map Some xs)) = rev (map Some xs)"
    by (cases "rev xs") (auto simp: rev_map)
  ultimately show ?thesis by (simp add: row_array_def)
qed

lemma row_array_Some: "row_array (map Some xs) = map Some xs"
  using row_array_blank_tail[of "[]" xs] by (simp add: blank_row_def)

lemma blank_drop: "blank_row r \<Longrightarrow> blank_row (drop n r)"
  by (auto simp: blank_row_def list_all_iff dest: in_set_dropD)

lemma not_blank_Some: "xs \<noteq> [] \<Longrightarrow> \<not> blank_row (map Some xs @ t)"
  by (cases xs) (auto simp: blank_row_def)

lemma header_at_A1:
  assumes "sheet_to_json sheet = []"
  shows "sheet_to_json (sheet_add_aoa sheet [header_row] OriginA1) = [header_row]"
proof (cases sheet)
  case Nil
  then show ?thesis
    using not_blank_Some[of EXCEL_HEADERS "[]"] row_array_Some[of EXCEL_HEADERS]
    by (simp add: sheet_add_aoa_def put_row_def sheet_to_json_def header_row_def EXCEL_HEADERS_def)
next
  case (Cons r rs)
  with assms have b: "blank_row r" and bs: "sheet_to_json rs = []"
    by (auto simp: sheet_to_json_def split: if_splits)
  have nb: "\<not> blank_row (map Some EXCEL_HEADERS @ drop (length EXCEL_HEADERS) r)"
    by (rule not_blank_Some) (simp add: EXCEL_HEADERS_def)
  have "sheet_add_aoa sheet [header_row] OriginA1 = overlay header_row r # rs"
    by (simp add: Cons sheet_add_aoa_def put_row_def)
  also have "overlay header_row r = map Some EXCEL_HEADERS @ drop (length EXCEL_HEADERS) r"
    unfolding header_row_def by (rule overlay_blank[OF b])
  finally show ?thesis
    using nb bs row_array_blank_tail[OF blank_drop[OF b], of EXCEL_HEADERS "length EXCEL_HEADERS"]
    by (simp add: sheet_to_json_def header_row_def)
qed

lemma entryRow_array: "row_array (entryRow ts e) = entryRow ts e" "\<not> blank_row (entryRow ts e)"
  by (simp_all add: row_array_def entryRow_def blank_row_def)

lemma appendRowToSheet_json:
  "\<not> blank_row r \<Longrightarrow> sheet_to_json (appendRowToSheet sheet r) =
     (if sheet_to_json sheet = [] then [header_row] else sheet_to_json sheet) @ [row_array r]"
  by (simp add: appendRowToSheet_def Let_def sheet_add_below sheet_to_json_append header_at_A1)
     (simp add: sheet_to_json_def)

section \<open>What the helpers leave alone\<close>

lemma setExcelStatus_store [simp]: "handleStore (snd (setExcelStatus msg err w)) = handleStore w"
  by (simp add: setExcelStatus_def split: option.splits)

lemma setExcelStatus_files [simp]: "files (snd (setExcelStatus msg err w)) = files w"
  by (simp add: setExcelStatus_def split: option.splits)

lemma setExcelStatus_trace [simp]: "trace (snd (setExcelStatus msg err w)) = trace w"
  by (simp add: setExcelStatus_def split: option.splits)

lemma setExcelStatus_status [simp]:
  "excelStatus (snd (setExcelStatus msg err w)) =
     (case excelStatus w of None \<Rightarrow> None | Some s \<Rightarrow> Some (''Excel: '' @ msg, err))"
  by (simp add: setExcelStatus_def split: option.splits)

lemma getSaved_result:
  "getSavedFileHandle env w = (r, w1) \<Longrightarrow>
     handleStore w1 = handleStore w \<and> files w1 = files w \<and> excelStatus w1 = excelStatus w \<and>
     (r = Inr (handleStore w) \<or> (\<exists>e. r = Inl (Thrown e)))"
  by (auto simp: getSavedFileHandle_def openHandleDb_def io_defs split: option.splits)

lemma ensure_store: "preserves handleStore (ensureReadWritePermission env handle)"
  unfolding ensureReadWritePermission_def queryPermission_def requestPermission_def
  by (intro preserves_intros) simp_all

lemma write_store: "preserves handleStore (writeWorkbookToHandle env wb h)"
  unfolding writeWorkbookToHandle_def
  by (intro preserves_intros) (simp_all add: preserves_def)

lemma appendWithHandle_store: "preserves handleStore (appendWithHandle env e handle)"
  unfolding appendWithHandle_def getFile_def arrayBuffer_def Let_def
  by (intro preserves_intros ensure_store write_store) (simp_all add: preserves_def)


lemma saveFileHandle_result:
  "saveFileHandle env h w = (r, w') \<Longrightarrow>
     files w' = files w \<and> excelStatus w' = excelStatus w \<and> writes w' = writes w \<and>
     ((\<exists>s. r = Inl s) \<and> handleStore w' = handleStore w \<or> r = Inr () \<and> handleStore w' = Some h)"
  by (auto simp: saveFileHandle_def openHandleDb_def io_defs writes_def is_write_def
           split: option.splits tx_outcome.splits)

lemma write_result:
  "writeWorkbookToHandle env wb h w = (r, w') \<Longrightarrow>
     handleStore w' = handleStore w \<and> excelStatus w' = excelStatus w \<and>
     ((\<exists>e. r = Inl (Thrown e)) \<and> files w' = files w \<or>
      r = Inr () \<and> (\<exists>data. xlsx_write env wb = Inr data \<and> files w' = (files w)(h := data)))"
  by (auto simp: writeWorkbookToHandle_def io_defs split: option.splits sum.splits)

lemma getFile_result:
  "getFile env h w = (r, w') \<Longrightarrow>
     handleStore w' = handleStore w \<and> excelStatus w' = excelStatus w \<and> files w' = files w \<and>
     writes w' = writes w \<and> (r = Inr (files w h) \<or> (\<exists>e. r = Inl (Thrown e)))"
  by (auto simp: getFile_def io_defs writes_def is_write_def split: option.splits)

lemma ensure_files: "preserves files (ensureReadWritePermission env handle)"
  unfolding ensureReadWritePermission_def queryPermission_def requestPermission_def
  by (intro preserves_intros) simp_all

lemma ensure_writes: "preserves writes (ensureReadWritePermission env handle)"
  unfolding ensureReadWritePermission_def queryPermission_def requestPermission_def
  by (intro preserves_intros) (simp_all add: writes_def is_write_def)

lemma ensure_status: "preserves excelStatus (ensureReadWritePermission env handle)"
  unfolding ensureReadWritePermission_def queryPermission_def requestPermission_def
  by (intro preserves_intros) simp_all

lemma initialise_store: "preserves handleStore (initialiseIfEmpty env h)"
  unfolding initialiseIfEmpty_def getFile_def
  by (intro preserves_intros write_store) (simp_all add: preserves_def)

lemma initialise_nonempty:
  assumes "initialiseIfEmpty env h w = (r, w')" "blob_size env (files w h) \<noteq> 0"
  shows "files w' = files w \<and> writes w' = writes w"
proof -
  obtain r1 w1 where g: "getFile env h w = (r1, w1)" by (cases "getFile env h w")
  note g1 = getFile_result[OF g]
  show ?thesis
    using assms g g1 by (auto simp: initialiseIfEmpty_def bind_io_def return_io_def)
qed

lemma createWorkbookWithHeaders_eq: "createWorkbookWithHeaders = Inr header_workbook"
  by (simp add: createWorkbookWithHeaders_def header_workbook_def book_new_def book_append_sheet_def
      aoa_to_sheet_def)

lemma initialise_result:
  assumes "initialiseIfEmpty env h w = (r, w')"
  shows "files w' = files w \<or>
         (blob_size env (files w h) = 0 \<and>
          (\<exists>wb data. createWorkbookWithHeaders = Inr wb \<and> xlsx_write env wb = Inr data \<and>
             r = Inr () \<and> files w' = (files w)(h := data)))"
proof -
  obtain r1 w1 where g: "getFile env h w = (r1, w1)" by (cases "getFile env h w")
  note g1 = getFile_result[OF g]
  show ?thesis
  proof (cases r1)
    case (Inl e)
    then show ?thesis using assms g g1 by (simp add: initialiseIfEmpty_def bind_io_def)
  next
    case (Inr f)
    with g1 have f: "f = files w h" by auto
    show ?thesis
    proof (cases "blob_size env f = 0")
      case False
      then show ?thesis using assms g g1 Inr by (simp add: initialiseIfEmpty_def bind_io_def return_io_def)
    next
      case True
        have "writeWorkbookToHandle env header_workbook h w1 = (r, w')"
          using assms g Inr True
          by (simp add: initialiseIfEmpty_def bind_io_def lift_io_def createWorkbookWithHeaders_eq)
        from write_result[OF this] show ?thesis
          using g1 True f by (auto simp: createWorkbookWithHeaders_eq)
    qed
  qed
qed


lemma connect_body:
  assumes "has_showSaveFilePicker env" "has_indexedDB env" "has_XLSX env"
  shows "connectExcelFile env =
        catch_io
          (bind_io (call_io EvShowSaveFilePicker (show_save_file_picker env)) (\<lambda>handle.
           bind_io (ensureReadWritePermission env (Some handle)) (\<lambda>hasPermission.
           if \<not> hasPermission then
             bind_io (setExcelStatus ''Permission denied for Excel file.'' True) (\<lambda>u.
             return_io False)
           else
             bind_io (saveFileHandle env handle) (\<lambda>saved.
             bind_io (initialiseIfEmpty env handle) (\<lambda>initialised.
             bind_io (setExcelStatus (''Connected ('' @ handle_name handle @ '')'') False) (\<lambda>u.
             return_io True))))))
          (\<lambda>error.
             if error = Exn ''AbortError'' then
               bind_io (setExcelStatus ''Connection cancelled.'' False) (\<lambda>u.
               return_io False)
             else
               bind_io (setExcelStatus ''Failed to connect Excel file.'' True) (\<lambda>u.
               return_io False))"
  using assms by (simp add: connectExcelFile_def)

lemma pick_world:
  "call_io EvShowSaveFilePicker (show_save_file_picker env) w = (r, w1) \<Longrightarrow>
     r = settled (show_save_file_picker env (length (trace w))) \<and> handleStore w1 = handleStore w \<and>
     files w1 = files w \<and> excelStatus w1 = excelStatus w \<and> writes w1 = writes w"
  by (auto simp: call_io_def writes_def is_write_def)


lemma setExcelStatus_writes [simp]:
  "writes (snd (setExcelStatus msg err w)) = writes w"
  by (simp add: writes_def)



lemma status_return_fun:
  "bind_io (setExcelStatus msg err) (\<lambda>u. return_io b) = (\<lambda>w. (Inr b, snd (setExcelStatus msg err w)))"
  by (rule ext) (simp add: status_return)



lemma append_body:
  assumes "has_XLSX env" "has_indexedDB env" "has_showSaveFilePicker env"
  shows "appendCustomerToExcel env e autoConnect =
        catch_io
          (bind_io (getSavedFileHandle env) (\<lambda>handle.
           if handle = None then
             (if autoConnect then
                bind_io (connectExcelFile env) (\<lambda>connected.
                if \<not> connected then return_io False
                else bind_io (getSavedFileHandle env) (\<lambda>handle'.
                     appendWithHandle env e handle'))
              else
                bind_io (setExcelStatus ''Not connected. Click Connect Excel.'' True) (\<lambda>u.
                return_io False))
           else appendWithHandle env e handle))
          (\<lambda>error.
             bind_io (setExcelStatus ''Could not update Excel file.'' True) (\<lambda>u.
             return_io False))"
  using assms by (simp add: appendCustomerToExcel_def)



lemma arrayBuffer_result:
  "arrayBuffer env h f w = (r, w') \<Longrightarrow>
     handleStore w' = handleStore w \<and> excelStatus w' = excelStatus w \<and> files w' = files w \<and>
     writes w' = writes w \<and> (r = Inr f \<or> (\<exists>e. r = Inl (Thrown e)))"
  by (auto simp: arrayBuffer_def io_defs writes_def is_write_def split: option.splits)

lemma getSaved_writes: "getSavedFileHandle env w = (r, w1) \<Longrightarrow> writes w1 = writes w"
  by (auto simp: getSavedFileHandle_def openHandleDb_def io_defs writes_def is_write_def
           split: option.splits)

lemma hoare_False: "hoare (\<lambda>w. False) m Q"
  by (simp add: hoare_def)

lemma hoare_lift: "(\<And>w. P w \<Longrightarrow> Q (settled r) w) \<Longrightarrow> hoare P (lift_io r) Q"
  by (simp add: hoare_def lift_io_def)

lemma appendWithHandle_undecodable:
  assumes "0 < blob_size env (F h)" "xlsx_read env (F h) = Inl err"
  shows "hoare (\<lambda>w. files w = F \<and> writes w = W) (appendWithHandle env e (Some h))
           (\<lambda>r w. (files w = F \<and> writes w = W) \<and> r \<noteq> Inr True)"
proof -
  let ?I = "\<lambda>w::'a world. files w = F \<and> writes w = W"
  have ens: "hoare ?I (ensureReadWritePermission env (Some h)) (\<lambda>r. ?I)"
    by (rule hoareI) (auto dest: preserves_D[OF ensure_files] preserves_D[OF ensure_writes])
  have gf: "hoare ?I (getFile env h) (\<lambda>r w. case r of Inl e \<Rightarrow> ?I w | Inr f \<Rightarrow> f = F h \<and> ?I w)"
    by (rule hoareI) (auto dest!: getFile_result split: sum.splits)
  have ab: "hoare ?I (arrayBuffer env h (F h)) (\<lambda>r w. case r of Inl e \<Rightarrow> ?I w | Inr b \<Rightarrow> b = F h \<and> ?I w)"
    by (rule hoareI) (auto dest!: arrayBuffer_result split: sum.splits)
  show ?thesis
    unfolding appendWithHandle_def
    apply (rule hoare_bind[where R = "\<lambda>x. ?I"])
     apply (rule hoare_post[OF ens])
     apply (simp split: sum.splits)
    apply (rule hoare_if)
     apply (rule hoare_status_return)
     apply simp
    apply simp
    apply (rule hoare_bind[where R = "\<lambda>f w. f = F h \<and> ?I w"])
     apply (rule hoare_post[OF gf])
     apply (simp split: sum.splits)
    apply (rule hoare_assume)
    apply (simp add: assms)
    apply (rule hoare_bind[where R = "\<lambda>x w. False"])
     apply (rule hoare_bind[where R = "\<lambda>b w. b = F h \<and> ?I w"])
      apply (rule hoare_post[OF ab])
      apply (simp split: sum.splits)
     apply (rule hoare_assume)
     apply (simp add: assms)
     apply (rule hoare_lift)
     apply simp
    apply (rule hoare_False)
    done
qed



lemma getSaved_status: "preserves excelStatus (getSavedFileHandle env)"
  unfolding getSavedFileHandle_def openHandleDb_def
  by (intro preserves_intros) (simp_all add: preserves_def)

lemma save_status: "preserves excelStatus (saveFileHandle env h)"
  unfolding saveFileHandle_def openHandleDb_def
  by (intro preserves_intros) (simp_all add: preserves_def)

lemma write_status: "preserves excelStatus (writeWorkbookToHandle env wb h)"
  unfolding writeWorkbookToHandle_def
  by (intro preserves_intros) (simp_all add: preserves_def)

lemma getFile_status: "preserves excelStatus (getFile env h)"
  unfolding getFile_def
  by (intro preserves_intros) (simp_all add: preserves_def)

lemma arrayBuffer_status: "preserves excelStatus (arrayBuffer env h f)"
  unfolding arrayBuffer_def
  by (intro preserves_intros) (simp_all add: preserves_def)

lemma initialise_status: "preserves excelStatus (initialiseIfEmpty env h)"
  unfolding initialiseIfEmpty_def
  by (intro preserves_intros write_status getFile_status)

lemma hasPermission_status: "preserves excelStatus (hasReadWritePermission env handle)"
  unfolding hasReadWritePermission_def queryPermission_def
  by (intro preserves_intros) simp_all

lemma restore_prompts: "preserves prompts (restoreExcelConnectionStatus env)"
  unfolding restoreExcelConnectionStatus_def getSavedFileHandle_def openHandleDb_def
    hasReadWritePermission_def queryPermission_def
  by (intro preserves_intros) (simp_all add: prompts_def is_prompt_def preserves_def)

text \<open>The status line, once the element exists, exists ever after; a call that ends by
  setting it leaves a text that starts with "Excel: ".\<close>

lemma hoare_bind_status:
  assumes "preserves excelStatus m"
    and "\<And>x. hoare (\<lambda>w. E \<longrightarrow> excelStatus w \<noteq> None) (f x) Q"
    and "\<And>e w. (E \<longrightarrow> excelStatus w \<noteq> None) \<Longrightarrow> Q (Inl e) w"
  shows "hoare (\<lambda>w. E \<longrightarrow> excelStatus w \<noteq> None) (bind_io m f) Q"
proof (rule hoare_bind[where R = "\<lambda>x w. E \<longrightarrow> excelStatus w \<noteq> None"])
  show "hoare (\<lambda>w. E \<longrightarrow> excelStatus w \<noteq> None) m
     (\<lambda>r w. case r of Inl e \<Rightarrow> Q (Inl e) w | Inr x \<Rightarrow> E \<longrightarrow> excelStatus w \<noteq> None)"
    by (rule hoareI) (auto dest!: preserves_D[OF assms(1)] intro: assms(3) split: sum.splits)
qed (rule assms(2))

text \<open>Unless it stays pending, \<open>connectExcelFile\<close> returns with a status it has set.\<close>

lemma connect_status:
  "hoare (\<lambda>w. E \<longrightarrow> excelStatus w \<noteq> None) (connectExcelFile env)
     (\<lambda>r w. case r of Inl s \<Rightarrow> s = Pending \<and> (E \<longrightarrow> excelStatus w \<noteq> None)
            | Inr b \<Rightarrow> status_set E b w)"
proof -
  let ?I = "\<lambda>w::'a world. E \<longrightarrow> excelStatus w \<noteq> None"
  let ?B = "\<lambda>r (w::'a world). case r of Inl e \<Rightarrow> ?I w | Inr x \<Rightarrow> status_set E x w"
  have leaf: "\<And>msg err b. (b \<longrightarrow> \<not> err) \<Longrightarrow>
      hoare ?I (bind_io (setExcelStatus msg err) (\<lambda>u. return_io b)) ?B"
    by (rule hoareI) (auto simp: status_return status_set_def split: option.splits)
  have leaf2: "\<And>msg err. hoare ?I (bind_io (setExcelStatus msg err) (\<lambda>u. return_io False))
      (\<lambda>r w. case r of Inl s \<Rightarrow> s = Pending \<and> ?I w | Inr b \<Rightarrow> status_set E b w)"
    by (rule hoareI) (auto simp: status_return status_set_def split: option.splits)
  show ?thesis
    unfolding connectExcelFile_def
    apply (intro hoare_if leaf2)
    apply (rule hoare_catch[where R = "\<lambda>e. ?I"])
     prefer 2
     apply (intro hoare_if leaf2)
    apply (rule hoare_post[where Q' = ?B])
     apply (intro leaf hoare_if hoare_bind_status preserves_call ensure_status save_status
        initialise_status)
           apply simp_all
    apply (auto split: sum.splits)
    done
qed


lemma hoare_throw_status:
  "hoare (\<lambda>w. E \<longrightarrow> excelStatus w \<noteq> None) (throw_io e)
     (\<lambda>r w. case r of Inl e \<Rightarrow> E \<longrightarrow> excelStatus w \<noteq> None | Inr x \<Rightarrow> status_set E x w)"
  by (simp add: hoare_def throw_io_def)

lemma hoare_case_option:
  "(ho = None \<Longrightarrow> hoare P a Q) \<Longrightarrow> (\<And>x. ho = Some x \<Longrightarrow> hoare P (b x) Q) \<Longrightarrow>
   hoare P (case ho of None \<Rightarrow> a | Some x \<Rightarrow> b x) Q"
  by (cases ho) auto

lemma hoare_case_prod:
  "(\<And>a b. hoare P (f a b) Q) \<Longrightarrow> hoare P (case ab of (a, b) \<Rightarrow> f a b) Q"
  by (cases ab) auto

lemma appendWithHandle_status:
  "hoare (\<lambda>w. E \<longrightarrow> excelStatus w \<noteq> None) (appendWithHandle env e handle)
     (\<lambda>r w. case r of Inl e \<Rightarrow> E \<longrightarrow> excelStatus w \<noteq> None | Inr x \<Rightarrow> status_set E x w)"
proof -
  let ?I = "\<lambda>w::'a world. E \<longrightarrow> excelStatus w \<noteq> None"
  let ?B = "\<lambda>r (w::'a world). case r of Inl e \<Rightarrow> ?I w | Inr x \<Rightarrow> status_set E x w"
  have leaf: "\<And>msg err b. (b \<longrightarrow> \<not> err) \<Longrightarrow>
      hoare ?I (bind_io (setExcelStatus msg err) (\<lambda>u. return_io b)) ?B"
    by (rule hoareI) (auto simp: status_return status_set_def split: option.splits)
  show ?thesis
    unfolding appendWithHandle_def Let_def
    apply (intro leaf hoare_if hoare_throw_status hoare_case_option hoare_case_prod
        hoare_bind_status)
                 apply (intro preserves_intros ensure_status getFile_status arrayBuffer_status
        write_status | simp)+
    done
qed

lemma append_status:
  "hoare (\<lambda>w. E \<longrightarrow> excelStatus w \<noteq> None) (appendCustomerToExcel env e autoConnect)
     (\<lambda>r w. case r of Inl s \<Rightarrow> s = Pending \<and> (E \<longrightarrow> excelStatus w \<noteq> None)
            | Inr b \<Rightarrow> status_set E b w)"
proof -
  let ?I = "\<lambda>w::'a world. E \<longrightarrow> excelStatus w \<noteq> None"
  let ?B = "\<lambda>r (w::'a world). case r of Inl e \<Rightarrow> ?I w | Inr x \<Rightarrow> status_set E x w"
  have leaf: "\<And>msg err b. (b \<longrightarrow> \<not> err) \<Longrightarrow>
      hoare ?I (bind_io (setExcelStatus msg err) (\<lambda>u. return_io b)) ?B"
    by (rule hoareI) (auto simp: status_return status_set_def split: option.splits)
  have leaf2: "\<And>msg err. hoare ?I (bind_io (setExcelStatus msg err) (\<lambda>u. return_io False))
      (\<lambda>r w. case r of Inl s \<Rightarrow> s = Pending \<and> ?I w | Inr b \<Rightarrow> status_set E b w)"
    by (rule hoareI) (auto simp: status_return status_set_def split: option.splits)
  have reload: "hoare ?I (bind_io (getSavedFileHandle env) (\<lambda>handle'. appendWithHandle env e handle')) ?B"
    by (intro hoare_bind_status getSaved_status appendWithHandle_status) simp
  have conn: "hoare ?I
      (bind_io (connectExcelFile env) (\<lambda>connected.
         if \<not> connected then return_io False
         else bind_io (getSavedFileHandle env) (\<lambda>handle'. appendWithHandle env e handle'))) ?B"
    apply (rule hoare_bind[where R = "\<lambda>b w. status_set E b w"])
     apply (rule hoare_post[OF connect_status])
     apply (auto split: sum.splits)[1]
    apply (rule hoare_if)
     apply (rule hoare_return)
     apply simp
    apply (rule hoare_pre[OF reload])
    apply (simp add: status_set_def)
    apply auto
    done
  show ?thesis
    unfolding appendCustomerToExcel_def
    apply (intro hoare_if leaf2)
    apply (rule hoare_catch[where R = "\<lambda>e. ?I"])
     prefer 2
     apply (rule leaf2)
    apply (rule hoare_post[where Q' = ?B])
     apply (rule hoare_bind_status[OF getSaved_status])
      apply (intro hoare_if leaf conn appendWithHandle_status)
      apply simp
     apply simp
    apply (auto split: sum.splits)
    done
qed

lemma restore_status:
  "hoare (\<lambda>w. E \<longrightarrow> excelStatus w \<noteq> None) (restoreExcelConnectionStatus env)
     (\<lambda>r w. r = Inr () \<and> (E \<longrightarrow> (\<exists>msg err. excelStatus w = Some (''Excel: '' @ msg, err))))"
proof -
  let ?I = "\<lambda>w::'a world. E \<longrightarrow> excelStatus w \<noteq> None"
  let ?Q = "\<lambda>(r::halt + unit) (w::'a world). r = Inr () \<and> (E \<longrightarrow> (\<exists>msg err. excelStatus w = Some (''Excel: '' @ msg, err)))"
  let ?B = "\<lambda>(r::halt + unit) (w::'a world). case r of Inl e \<Rightarrow> ?I w | Inr x \<Rightarrow> ?Q (Inr x) w"
  have leaf: "\<And>msg err. hoare ?I (setExcelStatus msg err) ?Q"
    by (rule hoareI) (auto simp: setExcelStatus_def split: option.splits)
  have leafB: "\<And>msg err. hoare ?I (setExcelStatus msg err) ?B"
    by (rule hoareI) (auto simp: setExcelStatus_def split: option.splits)
  show ?thesis
    unfolding restoreExcelConnectionStatus_def
    apply (intro hoare_if leaf)
    apply (rule hoare_catch_settled[where R = "\<lambda>e. ?I"])
      prefer 2
      apply (rule leaf)
     apply (rule hoare_post[where Q' = ?B])
      apply (intro leafB hoare_if hoare_case_option hoare_bind_status getSaved_status
        hasPermission_status)
       apply simp
      apply simp
     apply (auto split: sum.splits)[1]
    apply (intro settles_intros getSaved_settles hasPermission_settles)
    done
qed

text \<open>With a handle stored, or without \<open>autoConnect\<close>, \<open>appendCustomerToExcel\<close> does not
  get to \<open>saveFileHandle\<close>, so it settles.\<close>

lemma append_body_stored_settles:
  "settles (\<lambda>w. handleStore w \<noteq> None)
     (bind_io (getSavedFileHandle env) (\<lambda>handle.
        if handle = None then X else appendWithHandle env e handle))"
proof -
  have "fst (bind_io (getSavedFileHandle env) (\<lambda>handle.
        if handle = None then X else appendWithHandle env e handle) w) \<noteq> Inl Pending"
    if st: "handleStore w \<noteq> None" for w
  proof -
    obtain r1 w1 where g: "getSavedFileHandle env w = (r1, w1)"
      by (cases "getSavedFileHandle env w")
    from getSaved_result[OF g] consider err where "r1 = Inl (Thrown err)" | "r1 = Inr (handleStore w)"
      by auto
    then show ?thesis
    proof cases
      case 1
      then show ?thesis using g by (simp add: bind_io_def)
    next
      case 2
      then show ?thesis
        using g st appendWithHandle_settles[of "\<lambda>w. True" env e "handleStore w"]
        by (auto simp: bind_io_def settles_def)
    qed
  qed
  then show ?thesis by (simp add: settles_def)
qed

lemma append_stored_settles:
  "settles (\<lambda>w. handleStore w \<noteq> None) (appendCustomerToExcel env e autoConnect)"
  unfolding appendCustomerToExcel_def
  by (intro settles_if settles_catch append_body_stored_settles settles_intros)

lemma append_manual_settles: "settles P (appendCustomerToExcel env e False)"
  unfolding appendCustomerToExcel_def
  by (simp only: if_False)
     (intro settles_intros getSaved_settles appendWithHandle_settles)

text \<open>The aborted transaction is the only way for an operation not to return.\<close>

lemma saveFileHandle_settles:
  "\<forall>t. tx_put env t \<noteq> TxAbort \<Longrightarrow> settles P (saveFileHandle env h)"
  by (auto simp: settles_def saveFileHandle_def openHandleDb_def io_defs
           split: option.splits tx_outcome.splits)

lemma connect_settles:
  "\<forall>t. tx_put env t \<noteq> TxAbort \<Longrightarrow> settles P (connectExcelFile env)"
  unfolding connectExcelFile_def
  by (intro settles_intros ensure_settles saveFileHandle_settles initialise_settles)

lemma append_settles:
  "\<forall>t. tx_put env t \<noteq> TxAbort \<Longrightarrow> settles P (appendCustomerToExcel env e autoConnect)"
  unfolding appendCustomerToExcel_def
  by (intro settles_intros getSaved_settles connect_settles appendWithHandle_settles)

lemma append_store_hoare:
  "hoare (\<lambda>w. handleStore w = Some h) (appendCustomerToExcel env e autoConnect)
     (\<lambda>r w. handleStore w = Some h)"
proof -
  let ?I = "\<lambda>w::'a world. handleStore w = Some h"
  have load: "hoare ?I (getSavedFileHandle env)
      (\<lambda>r w. case r of Inl err \<Rightarrow> ?I w | Inr x \<Rightarrow> x = Some h \<and> ?I w)"
    by (rule hoareI) (auto dest!: getSaved_result split: sum.splits)
  have rest: "hoare ?I (appendWithHandle env e (Some h)) (\<lambda>r. ?I)"
    by (rule hoare_preserves[OF appendWithHandle_store])
  show ?thesis
    unfolding appendCustomerToExcel_def
    apply (intro hoare_if hoare_status_return hoare_catch[where R = "\<lambda>err. ?I"])
        apply simp
       apply simp
      apply (rule hoare_bind[where R = "\<lambda>x w. x = Some h \<and> ?I w"])
       apply (rule hoare_post[OF load])
       apply (simp split: sum.splits)
      apply (rule hoare_assume)
      apply (simp add: hoare_post[OF rest] split: sum.splits)
     apply simp
    apply simp
    done
qed

section \<open>Rows of the document over a sequence of calls\<close>


lemma document_rows_sheet:
  assumes "document_rows env file = Some rows" "read_workbook env file = Inr wb"
  shows "\<exists>sh. Sheets wb EXCEL_SHEET_NAME = Some sh \<and> sheet_to_json sh = rows"
  using assms by (auto simp: document_rows_def)

lemma written_rows:
  assumes "codec_ok env" "xlsx_write env wb = Inr data"
  shows "0 < blob_size env data"
    and "document_rows env data = map_option sheet_to_json (Sheets wb EXCEL_SHEET_NAME)"
proof -
  from assms obtain wb' where s: "0 < blob_size env data" and r: "xlsx_read env data = Inr wb'"
    and e: "map_option sheet_to_json (Sheets wb' EXCEL_SHEET_NAME) =
            map_option sheet_to_json (Sheets wb EXCEL_SHEET_NAME)"
    unfolding codec_ok_def by blast
  show "0 < blob_size env data" by (rule s)
  show "document_rows env data = map_option sheet_to_json (Sheets wb EXCEL_SHEET_NAME)"
    using s r e by (simp add: document_rows_def read_workbook_def)
qed

lemma getOrCreateSheet_existing:
  "Sheets wb EXCEL_SHEET_NAME = Some sh \<Longrightarrow> getOrCreateSheet wb = (sh, wb)"
  by (simp add: getOrCreateSheet_def)

lemma write_files: "hoare (\<lambda>w. files w = F) (writeWorkbookToHandle env wb h)
   (\<lambda>r w. case r of Inl e \<Rightarrow> files w = F
          | Inr u \<Rightarrow> \<exists>data. xlsx_write env wb = Inr data \<and> files w = F(h := data))"
  by (rule hoareI) (auto dest!: write_result split: sum.splits)

lemma appendWithHandle_rows:
  assumes codec: "codec_ok env"
    and rows: "document_rows env (F h) = Some (header_row # rows)"
  shows "hoare (\<lambda>w. files w = F) (appendWithHandle env e (Some h))
           (\<lambda>r w. case r of Inl err \<Rightarrow> files w = F
                  | Inr b \<Rightarrow>
                      if b then \<exists>data. files w = F(h := data) \<and> 0 < blob_size env data \<and>
                             document_rows env data
                               = Some (header_row # rows @ [entryRow (number_toString env) e])
                      else files w = F)"
proof -
  define G where "G = (\<lambda>w::'a world. \<exists>data. files w = F(h := data) \<and> 0 < blob_size env data \<and>
             document_rows env data = Some (header_row # rows @ [entryRow (number_toString env) e]))"
  let ?I = "\<lambda>w::'a world. files w = F"
  let ?Q = "\<lambda>r (w::'a world). case r of Inl err \<Rightarrow> files w = F | Inr b \<Rightarrow> if b then G w else files w = F"
  have ens: "hoare ?I (ensureReadWritePermission env (Some h)) (\<lambda>r. ?I)"
    by (rule hoareI) (auto dest: preserves_D[OF ensure_files])
  have gf: "hoare ?I (getFile env h) (\<lambda>r w. case r of Inl e \<Rightarrow> ?I w | Inr f \<Rightarrow> f = F h \<and> ?I w)"
    by (rule hoareI) (auto dest!: getFile_result split: sum.splits)
  have rd: "hoare ?I
      (if 0 < blob_size env (F h)
       then bind_io (arrayBuffer env h (F h)) (\<lambda>buffer. lift_io (xlsx_read env buffer))
       else lift_io createWorkbookWithHeaders)
      (\<lambda>r w. case r of Inl e \<Rightarrow> ?I w | Inr wb \<Rightarrow> read_workbook env (F h) = Inr wb \<and> ?I w)"
    by (rule hoareI)
       (auto simp: bind_io_def lift_io_def read_workbook_def dest!: arrayBuffer_result
             split: sum.splits prod.splits if_splits)
  have fin: "\<And>msg. hoare G
      (bind_io (call_io EvClock (\<lambda>t. Inr (toLocaleTimeString env t))) (\<lambda>now.
       bind_io (setExcelStatus (msg now) False) (\<lambda>u. return_io True))) ?Q"
    by (rule hoareI) (auto simp: status_return_fun bind_io_def call_io_def G_def)
  have wr: "hoare ?I (writeWorkbookToHandle env
        (wb1\<lparr>Sheets := (Sheets wb1)(EXCEL_SHEET_NAME \<mapsto> appendRowToSheet sheet (entryRow (number_toString env) e))\<rparr>) h)
      (\<lambda>r w. case r of Inl e \<Rightarrow> ?Q (Inl e) w | Inr u \<Rightarrow> G w)"
    if "sheet_to_json sheet = header_row # rows" for sheet wb1
    apply (rule hoare_post[OF write_files])
    using that written_rows[OF codec] appendRowToSheet_json[OF entryRow_array(2), of sheet "number_toString env" e]
    apply (auto simp: G_def entryRow_array(1) split: sum.splits)
    done
  show ?thesis
    unfolding appendWithHandle_def
    apply (rule hoare_bind[where R = "\<lambda>x. ?I"])
     apply (rule hoare_post[OF ens])
     apply (simp split: sum.splits)
    apply (rule hoare_if)
     apply (rule hoare_status_return)
     apply simp
    apply simp
    apply (rule hoare_bind[where R = "\<lambda>f w. f = F h \<and> ?I w"])
     apply (rule hoare_post[OF gf])
     apply (simp split: sum.splits)
    apply (rule hoare_assume)
    apply (simp only:)
    apply (rule hoare_bind[where R = "\<lambda>wb w. read_workbook env (F h) = Inr wb \<and> ?I w"])
     apply (rule hoare_post[OF rd])
     apply (simp split: sum.splits)
    apply (rule hoare_assume)
    apply (drule document_rows_sheet[OF rows])
    apply (erule exE)
    apply (erule conjE)
    apply (simp only: getOrCreateSheet_existing prod.case Let_def)
    apply (rule hoare_bind[where R = "\<lambda>u. G"])
     apply (rule hoare_post[OF wr])
      apply assumption
     apply (simp add: G_def split: sum.splits)
    apply (rule hoare_post[OF fin])
    apply (auto simp: G_def split: sum.splits if_splits)
    done
qed


lemma append_call_rows:
  assumes codec: "codec_ok env"
    and store: "handleStore w = Some h"
    and rows: "document_rows env (files w h) = Some (header_row # rows)"
    and call: "appendCustomerToExcel env e autoConnect w = (r, w1)"
  shows "handleStore w1 = Some h"
    and "document_rows env (files w1 h) =
           Some (header_row # rows @ (if r = Inr True then [entryRow (number_toString env) e] else []))"
    and "r = Inr True \<or> files w1 = files w"
    and "r = Inr True \<longrightarrow> 0 < blob_size env (files w1 h)"
proof -
  define G where "G = (\<lambda>w1::'a world. \<exists>data. files w1 = (files w)(h := data) \<and> 0 < blob_size env data \<and>
             document_rows env data = Some (header_row # rows @ [entryRow (number_toString env) e]))"
  let ?I = "\<lambda>w1::'a world. files w1 = files w"
  let ?P = "\<lambda>w1::'a world. handleStore w1 = Some h \<and> ?I w1"
  let ?B = "\<lambda>r (w1::'a world). case r of Inl err \<Rightarrow> ?I w1 | Inr b \<Rightarrow> if b then G w1 else ?I w1"
  have load: "hoare ?P (getSavedFileHandle env)
      (\<lambda>r w1. case r of Inl err \<Rightarrow> ?I w1 | Inr x \<Rightarrow> x = Some h \<and> ?I w1)"
    by (rule hoareI) (auto dest: getSaved_result split: sum.splits)
  have rest: "hoare ?I (appendWithHandle env e (Some h)) ?B"
    unfolding G_def by (rule appendWithHandle_rows[where F = "files w" and h = h, OF codec rows])
  have leafP: "\<And>msg err. hoare ?P (bind_io (setExcelStatus msg err) (\<lambda>u. return_io False))
      (\<lambda>r w1. \<exists>b. r = Inr b \<and> (if b then G w1 else ?I w1))"
    by (rule hoareI) (auto simp: status_return)
  have leafI: "\<And>msg err. hoare ?I (bind_io (setExcelStatus msg err) (\<lambda>u. return_io False))
      (\<lambda>r w1. \<exists>b. r = Inr b \<and> (if b then G w1 else ?I w1))"
    by (rule hoareI) (auto simp: status_return)
  have main: "hoare ?P (appendCustomerToExcel env e autoConnect)
      (\<lambda>r w1. \<exists>b. r = Inr b \<and> (if b then G w1 else ?I w1))"
    unfolding appendCustomerToExcel_def
    apply (intro hoare_if leafP)
    apply (rule hoare_catch_settled[where R = "\<lambda>err. ?I"])
      prefer 2
      apply (rule leafI)
     apply (rule hoare_bind[where R = "\<lambda>x w1. x = Some h \<and> ?I w1"])
      apply (rule hoare_post[OF load])
      apply (simp split: sum.splits)
     apply (rule hoare_assume)
     apply simp
     apply (rule hoare_post[OF rest])
     apply (simp split: sum.splits)
     apply (rule_tac x = x2 in exI)
     apply (simp split: if_splits)
    apply (rule settles_pre[OF append_body_stored_settles])
    apply simp
    done
  from hoareD[OF main _ call] store
  obtain b where b: "r = Inr b" "if b then G w1 else files w1 = files w" by auto
  show "handleStore w1 = Some h"
    using hoareD[OF append_store_hoare store call] .
  show "document_rows env (files w1 h) =
           Some (header_row # rows @ (if r = Inr True then [entryRow (number_toString env) e] else []))"
    using b rows by (cases b) (auto simp: G_def)
  show "r = Inr True \<or> files w1 = files w"
    using b by (cases b) auto
  show "r = Inr True \<longrightarrow> 0 < blob_size env (files w1 h)"
    using b by (cases b) (auto simp: G_def)
qed

lemma appended_rows_all:
  "length rs = length calls \<Longrightarrow> \<forall>r\<in>set rs. r = Inr True \<Longrightarrow>
   appended_rows toStr rs calls = map (\<lambda>c. entryRow toStr (fst c)) calls"
  by (induction toStr rs calls rule: appended_rows.induct) auto

lemma empty_document_rows:
  "blob_size env file = 0 \<Longrightarrow> document_rows env file = Some [header_row]"
  using not_blank_Some[of EXCEL_HEADERS "[]"] row_array_Some[of EXCEL_HEADERS]
  by (simp add: document_rows_def read_workbook_def createWorkbookWithHeaders_eq header_workbook_def
      sheet_to_json_def header_row_def EXCEL_HEADERS_def)


lemma sample_codec: "codec_ok sample_env"
  by (simp add: codec_ok_def sample_env_def)



lemma empty_or_header_only_rows:
  "empty_or_header_only env f \<longleftrightarrow> document_rows env f = Some [header_row]"
  using empty_document_rows[of env f] by (auto simp: empty_or_header_only_def)

lemma header_workbook_rows:
  assumes "codec_ok env" "xlsx_write env header_workbook = Inr data"
  shows "document_rows env data = Some [header_row]"
proof -
  have "sheet_to_json [header_row] = [header_row]"
    using not_blank_Some[of EXCEL_HEADERS "[]"] row_array_Some[of EXCEL_HEADERS]
    by (simp add: sheet_to_json_def header_row_def EXCEL_HEADERS_def)
  then show ?thesis
    using written_rows(2)[OF assms] by (simp add: header_workbook_def)
qed

text \<open>Connecting with no handle stored: either nothing is stored afterwards and the call
  returned \<open>false\<close>, or a pickable handle is stored; every pickable file is still a fit
  start.\<close>

lemma connect_fresh:
  assumes codec: "codec_ok env"
  defines "U \<equiv> (\<lambda>w. \<forall>h. pickable env h \<longrightarrow> document_rows env (files w h) = Some [header_row])"
  shows "hoare (\<lambda>w. handleStore w = None \<and> U w) (connectExcelFile env)
     (\<lambda>r w. (r = Inl Pending \<and>
               (handleStore w = None \<and> U w \<or> (\<exists>h. handleStore w = Some h \<and> pickable env h \<and> U w))) \<or>
            (\<exists>b. r = Inr b \<and>
        ((handleStore w = None \<and> \<not> b \<and> U w) \<or> (\<exists>h. handleStore w = Some h \<and> pickable env h \<and> U w))))"
proof -
  let ?N = "\<lambda>w::'a world. handleStore w = None \<and> U w"
  let ?S = "\<lambda>w::'a world. \<exists>h. handleStore w = Some h \<and> pickable env h \<and> U w"
  let ?A = "\<lambda>w::'a world. ?N w \<or> ?S w"
  let ?Q = "\<lambda>(r::halt + bool) (w::'a world). (r = Inl Pending \<and> ?A w) \<or> (\<exists>b. r = Inr b \<and>
        ((handleStore w = None \<and> \<not> b \<and> U w) \<or> (\<exists>h. handleStore w = Some h \<and> pickable env h \<and> U w)))"
  let ?B = "\<lambda>(r::halt + bool) (w::'a world). case r of Inl e \<Rightarrow> ?A w | Inr b \<Rightarrow> ?Q (Inr b) w"
  have leafA: "\<And>msg err. hoare ?A (bind_io (setExcelStatus msg err) (\<lambda>u. return_io False)) ?Q"
    by (rule hoareI) (auto simp: status_return U_def)
  have leafN: "\<And>msg err. hoare ?N (bind_io (setExcelStatus msg err) (\<lambda>u. return_io False)) ?Q"
    by (rule hoare_pre[OF leafA]) simp
  have leafNB: "\<And>msg err. hoare ?N (bind_io (setExcelStatus msg err) (\<lambda>u. return_io False)) ?B"
    by (rule hoareI) (auto simp: status_return U_def)
  have leafS: "\<And>msg err. hoare ?S (bind_io (setExcelStatus msg err) (\<lambda>u. return_io True)) ?B"
    by (rule hoareI) (auto simp: status_return U_def)
  have pk: "hoare ?N (call_io EvShowSaveFilePicker (show_save_file_picker env))
      (\<lambda>r w. case r of Inl e \<Rightarrow> ?A w | Inr x \<Rightarrow> pickable env x \<and> ?N w)"
    by (rule hoareI) (auto simp: call_io_def pickable_def U_def split: sum.splits)
  have ens: "\<And>x. hoare ?N (ensureReadWritePermission env (Some x)) (\<lambda>r. ?N)"
    by (rule hoareI)
       (auto simp: U_def dest: preserves_D[OF ensure_files] preserves_D[OF ensure_store])
  have sav: "\<And>x. pickable env x \<Longrightarrow> hoare ?N (saveFileHandle env x)
      (\<lambda>r w. case r of Inl e \<Rightarrow> ?A w | Inr u \<Rightarrow> ?S w)"
    by (rule hoareI) (auto simp: U_def dest!: saveFileHandle_result split: sum.splits)
  have ini: "\<And>x. hoare ?S (initialiseIfEmpty env x) (\<lambda>r. ?S)"
  proof (rule hoareI)
    fix x w0 r w1 assume "?S w0" and i: "initialiseIfEmpty env x w0 = (r, w1)"
    then obtain h where s: "handleStore w0 = Some h \<and> pickable env h \<and> U w0" by blast
    have st: "handleStore w1 = Some h" using preserves_D[OF initialise_store i] s by simp
    from initialise_result[OF i] have "U w1"
    proof
      assume "files w1 = files w0" then show ?thesis using s by (simp add: U_def)
    next
      assume "blob_size env (files w0 x) = 0 \<and>
         (\<exists>wb data. createWorkbookWithHeaders = Inr wb \<and> xlsx_write env wb = Inr data \<and>
             r = Inr () \<and> files w1 = (files w0)(x := data))"
      then obtain data where d: "xlsx_write env header_workbook = Inr data"
        and f: "files w1 = (files w0)(x := data)"
        by (auto simp: createWorkbookWithHeaders_eq)
      show ?thesis
        using s f header_workbook_rows[OF codec d] by (simp add: U_def)
    qed
    with st s show "?S w1" by blast
  qed
  show ?thesis
    unfolding connectExcelFile_def
    apply (intro hoare_if leafN)
    apply (rule hoare_catch[where R = "\<lambda>e. ?A"])
     prefer 2
     apply (intro hoare_if leafA)
    apply (rule hoare_post[where Q' = ?B])
     apply (rule hoare_bind[where R = "\<lambda>x w. pickable env x \<and> ?N w"])
      apply (rule hoare_post[OF pk])
      apply (simp split: sum.splits)
     apply (rule hoare_assume)
     apply (rule hoare_bind[where R = "\<lambda>x. ?N"])
      apply (rule hoare_post[OF ens])
      apply (simp split: sum.splits)
     apply (rule hoare_if)
      apply (rule leafNB)
     apply (rule hoare_bind[where R = "\<lambda>u. ?S"])
      apply (rule hoare_post[OF sav])
       apply assumption
      apply (simp split: sum.splits)
     apply (rule hoare_bind[where R = "\<lambda>u. ?S"])
      apply (rule hoare_post[OF ini])
      apply (auto split: sum.splits)[1]
     apply (rule leafS)
    apply (auto split: sum.splits)
    done
qed


lemma appendWithHandle_rows_at:
  assumes codec: "codec_ok env"
    and rows: "document_rows env (files w h) = Some (header_row # rows)"
    and store: "handleStore w = Some h"
    and call: "appendWithHandle env e (Some h) w = (r, w1)"
  shows "handleStore w1 = Some h \<and>
     document_rows env (files w1 h) =
       Some (header_row # rows @ (if r = Inr True then [entryRow (number_toString env) e] else [])) \<and>
     (r = Inr True \<longrightarrow> 0 < blob_size env (files w1 h))"
proof -
  have s: "handleStore w1 = Some h"
    using preserves_D[OF appendWithHandle_store call] store by simp
  note t = hoareD[OF appendWithHandle_rows[where F = "files w" and h = h, OF codec rows] refl call]
  show ?thesis
  proof (cases r)
    case (Inl err)
    with t rows s show ?thesis by simp
  next
    case (Inr b)
    with t rows s show ?thesis by (cases b) auto
  qed
qed

lemma append_call_fresh:
  assumes codec: "codec_ok env"
    and store: "handleStore w = None"
    and fit: "\<forall>h. pickable env h \<longrightarrow> document_rows env (files w h) = Some [header_row]"
    and call: "appendCustomerToExcel env e autoConnect w = (r, w1)"
  shows "(handleStore w1 = None \<and> r \<noteq> Inr True \<and>
          (\<forall>h. pickable env h \<longrightarrow> document_rows env (files w1 h) = Some [header_row]))
       \<or> (\<exists>h. handleStore w1 = Some h \<and>
             document_rows env (files w1 h) =
               Some (header_row # (if r = Inr True then [entryRow (number_toString env) e] else [])) \<and>
             (r = Inr True \<longrightarrow> 0 < blob_size env (files w1 h)))"
proof -
  define U where "U = (\<lambda>w::'a world. \<forall>h. pickable env h \<longrightarrow> document_rows env (files w h) = Some [header_row])"
  define T where "T = (\<lambda>b (w::'a world). \<exists>h. handleStore w = Some h \<and>
             document_rows env (files w h) =
               Some (header_row # (if b then [entryRow (number_toString env) e] else [])) \<and>
             (b \<longrightarrow> 0 < blob_size env (files w h)))"
  let ?N = "\<lambda>w::'a world. handleStore w = None \<and> U w"
  let ?S = "\<lambda>w::'a world. \<exists>h. handleStore w = Some h \<and> pickable env h \<and> U w"
  let ?A = "\<lambda>w::'a world. ?N w \<or> T False w"
  let ?Q = "\<lambda>(r::halt + bool) (w::'a world). (r = Inl Pending \<and> ?A w) \<or>
        (\<exists>b. r = Inr b \<and> ((?N w \<and> \<not> b) \<or> T b w))"
  let ?B = "\<lambda>(r::halt + bool) (w::'a world). case r of Inl e \<Rightarrow> ?A w | Inr b \<Rightarrow> ?Q (Inr b) w"
  have ST: "\<And>w. ?S w \<Longrightarrow> T False w" by (auto simp: T_def U_def)
  have leafN: "\<And>msg err. hoare ?N (bind_io (setExcelStatus msg err) (\<lambda>u. return_io False)) ?Q"
    by (rule hoareI) (auto simp: status_return U_def)
  have leafNB: "\<And>msg err. hoare ?N (bind_io (setExcelStatus msg err) (\<lambda>u. return_io False)) ?B"
    by (rule hoareI) (auto simp: status_return U_def)
  have leafA: "\<And>msg err. hoare ?A (bind_io (setExcelStatus msg err) (\<lambda>u. return_io False)) ?Q"
    by (rule hoareI) (auto simp: status_return U_def T_def)
  have load: "hoare ?N (getSavedFileHandle env)
      (\<lambda>r w. case r of Inl err \<Rightarrow> ?A w | Inr x \<Rightarrow> x = None \<and> ?N w)"
    by (rule hoareI) (auto simp: U_def dest!: getSaved_result split: sum.splits)
  have conn: "hoare ?N (connectExcelFile env)
      (\<lambda>r w. case r of Inl err \<Rightarrow> ?A w | Inr b \<Rightarrow> (?N w \<and> \<not> b) \<or> ?S w)"
    unfolding U_def
    by (rule hoare_post[OF connect_fresh[OF codec]]) (auto simp: T_def split: sum.splits)
  have reload: "hoare ?S (bind_io (getSavedFileHandle env) (\<lambda>handle'. appendWithHandle env e handle')) ?B"
  proof (rule hoareI)
    fix w0 r0 w3
    assume s: "?S w0"
      and b: "bind_io (getSavedFileHandle env) (\<lambda>handle'. appendWithHandle env e handle') w0 = (r0, w3)"
    then obtain h where h: "handleStore w0 = Some h" "pickable env h" "U w0" by blast
    obtain r1 w2 where g: "getSavedFileHandle env w0 = (r1, w2)" by (cases "getSavedFileHandle env w0")
    note g1 = getSaved_result[OF g]
    have d2: "document_rows env (files w2 h) = Some (header_row # [])" "handleStore w2 = Some h"
      using g1 h by (auto simp: U_def)
    show "?B r0 w3"
    proof (cases r1)
      case (Inl err)
      then show ?thesis using b g d2 by (auto simp: bind_io_def T_def)
    next
      case (Inr x)
      with g1 h have x: "x = Some h" by auto
      with b g Inr have a: "appendWithHandle env e (Some h) w2 = (r0, w3)" by (simp add: bind_io_def)
      from appendWithHandle_rows_at[OF codec d2 a] show ?thesis
        by (cases r0) (auto simp: T_def)
    qed
  qed
  have ret: "\<And>c. \<not> c \<Longrightarrow> hoare (\<lambda>w. (?N w \<and> \<not> c) \<or> ?S w) (return_io False) ?B"
  proof (rule hoareI)
    fix c w0 r0 w3
    assume "\<not> c" "(?N w0 \<and> \<not> c) \<or> ?S w0" "return_io False w0 = (r0, w3)"
    then have "r0 = Inr False" "w3 = w0" "?N w0 \<or> T False w0"
      using ST[of w0] by (auto simp: return_io_def)
    then show "?B r0 w3" by (auto intro: exI[of _ False])
  qed
  have main: "hoare ?N (appendCustomerToExcel env e autoConnect) ?Q"
    unfolding appendCustomerToExcel_def
    apply (intro hoare_if leafN)
    apply (rule hoare_catch[where R = "\<lambda>err. ?A"])
     prefer 2
     apply (rule leafA)
    apply (rule hoare_post[where Q' = ?B])
     apply (rule hoare_bind[where R = "\<lambda>x w. x = None \<and> ?N w"])
      apply (rule hoare_post[OF load])
      apply (simp split: sum.splits)
     apply (rule hoare_assume)
     apply (erule ssubst)
     apply (simp only: simp_thms if_True)
     apply (rule hoare_if)
      apply (rule hoare_bind[where R = "\<lambda>b w. (?N w \<and> \<not> b) \<or> ?S w"])
       apply (rule hoare_post[OF conn])
       apply (simp split: sum.splits)
      apply (rule hoare_if)
       apply (rule ret)
       apply simp
      apply (rule hoare_pre[OF reload])
      apply simp
     apply (rule leafNB)
    apply assumption
    apply simp
    done
  from hoareD[OF main _ call] store fit
  consider "r = Inl Pending" "(handleStore w1 = None \<and> U w1) \<or> T False w1"
    | b where "r = Inr b" "(handleStore w1 = None \<and> U w1 \<and> \<not> b) \<or> T b w1"
    by (auto simp: U_def)
  then show ?thesis
  proof cases
    case 1
    then show ?thesis by (auto simp: U_def T_def)
  next
    case (2 b)
    then show ?thesis by (cases b) (auto simp: U_def T_def)
  qed
qed


lemma append_call_inv:
  assumes codec: "codec_ok env"
    and inv: "rows_inv env w rows written"
    and call: "appendCustomerToExcel env e autoConnect w = (r, w1)"
  shows "rows_inv env w1 (rows @ (if r = Inr True then [entryRow (number_toString env) e] else []))
           (written \<or> r = Inr True)"
    and "\<forall>h. handleStore w = Some h \<longrightarrow> handleStore w1 = Some h"
proof -
  show "rows_inv env w1 (rows @ (if r = Inr True then [entryRow (number_toString env) e] else []))
           (written \<or> r = Inr True)"
  proof (cases "handleStore w")
    case None
    with inv have r0: "rows = []" "\<not> written"
      and fit: "\<forall>h. pickable env h \<longrightarrow> document_rows env (files w h) = Some [header_row]"
      by (auto simp: rows_inv_def)
    from append_call_fresh[OF codec None fit call] show ?thesis
      using r0 by (auto simp: rows_inv_def)
  next
    case (Some h)
    with inv have d: "document_rows env (files w h) = Some (header_row # rows)"
      and wr: "written \<longrightarrow> 0 < blob_size env (files w h)"
      by (auto simp: rows_inv_def)
    note step = append_call_rows[OF codec Some d call]
    show ?thesis
      using step wr by (auto simp: rows_inv_def)
  qed
  show "\<forall>h. handleStore w = Some h \<longrightarrow> handleStore w1 = Some h"
    using hoareD[OF append_store_hoare _ call] by blast
qed

lemma append_calls_inv:
  assumes codec: "codec_ok env"
  shows "rows_inv env w rows written \<Longrightarrow> append_calls env calls w = (rs, w') \<Longrightarrow>
     length rs = length calls \<and>
     rows_inv env w' (rows @ appended_rows (number_toString env) rs calls)
       (written \<or> (\<exists>r\<in>set rs. r = Inr True)) \<and>
     (\<forall>h. handleStore w = Some h \<longrightarrow> handleStore w' = Some h)"
proof (induction calls arbitrary: w rows rs written w')
  case Nil
  then show ?case by simp
next
  case (Cons c calls)
  obtain e ac where c: "c = (e, ac)" by (cases c)
  obtain r w1 where call: "appendCustomerToExcel env e ac w = (r, w1)"
    by (cases "appendCustomerToExcel env e ac w")
  obtain rs1 w2 where run: "append_calls env calls w1 = (rs1, w2)"
    by (cases "append_calls env calls w1")
  from Cons.prems(2) c call run have rs: "rs = r # rs1" and w': "w' = w2" by auto
  note step = append_call_inv[OF codec Cons.prems(1) call]
  note ih = Cons.IH[OF step(1) run]
  have w: "(written \<or> r = Inr True) \<or> (\<exists>r\<in>set rs1. r = Inr True) \<longleftrightarrow>
           written \<or> (\<exists>r\<in>set rs. r = Inr True)"
    by (auto simp: rs)
  show ?case
    using ih step(2) unfolding w by (simp add: rs w' c)
qed

lemma fresh_start_inv: "fresh_start env w \<Longrightarrow> rows_inv env w [] False"
  by (auto simp: fresh_start_def rows_inv_def empty_or_header_only_rows split: option.splits)



text \<open>Connecting when every pickable file is non-empty: nothing is written, and after
  \<open>true\<close> a pickable handle is stored.\<close>

lemma connect_nonempty:
  assumes ne: "\<forall>h. pickable env h \<longrightarrow> blob_size env (F h) \<noteq> 0"
  shows "hoare (\<lambda>w. files w = F \<and> writes w = W) (connectExcelFile env)
     (\<lambda>r w. (files w = F \<and> writes w = W) \<and>
        (r = Inl Pending \<or>
         (\<exists>b. r = Inr b \<and> (b \<longrightarrow> (\<exists>h. handleStore w = Some h \<and> pickable env h)))))"
proof -
  let ?J = "\<lambda>w::'a world. files w = F \<and> writes w = W"
  let ?S = "\<lambda>w::'a world. ?J w \<and> (\<exists>h. handleStore w = Some h \<and> pickable env h)"
  let ?Q = "\<lambda>(r::halt + bool) (w::'a world). ?J w \<and>
        (r = Inl Pending \<or>
         (\<exists>b. r = Inr b \<and> (b \<longrightarrow> (\<exists>h. handleStore w = Some h \<and> pickable env h))))"
  let ?B = "\<lambda>(r::halt + bool) (w::'a world). case r of Inl e \<Rightarrow> ?J w | Inr b \<Rightarrow> ?Q (Inr b) w"
  have leafJ: "\<And>msg err. hoare ?J (bind_io (setExcelStatus msg err) (\<lambda>u. return_io False)) ?Q"
    by (rule hoareI) (auto simp: status_return)
  have leafJB: "\<And>msg err. hoare ?J (bind_io (setExcelStatus msg err) (\<lambda>u. return_io False)) ?B"
    by (rule hoareI) (auto simp: status_return)
  have leafS: "\<And>msg err. hoare ?S (bind_io (setExcelStatus msg err) (\<lambda>u. return_io True)) ?B"
    by (rule hoareI) (auto simp: status_return)
  have pk: "hoare ?J (call_io EvShowSaveFilePicker (show_save_file_picker env))
      (\<lambda>r w. case r of Inl e \<Rightarrow> ?J w | Inr x \<Rightarrow> pickable env x \<and> ?J w)"
    by (rule hoareI) (auto simp: call_io_def pickable_def writes_def is_write_def split: sum.splits)
  have ens: "\<And>x. hoare ?J (ensureReadWritePermission env (Some x)) (\<lambda>r. ?J)"
    by (rule hoareI) (auto dest: preserves_D[OF ensure_files] preserves_D[OF ensure_writes])
  have sav: "\<And>x. pickable env x \<Longrightarrow> hoare ?J (saveFileHandle env x)
      (\<lambda>r w. case r of Inl e \<Rightarrow> ?J w | Inr u \<Rightarrow> ?S w)"
    by (rule hoareI) (auto dest!: saveFileHandle_result split: sum.splits)
  have ini: "\<And>x. pickable env x \<Longrightarrow> hoare ?S (initialiseIfEmpty env x) (\<lambda>r. ?S)"
  proof (rule hoareI)
    fix x w0 r w1
    assume p: "pickable env x" and s: "?S w0" and i: "initialiseIfEmpty env x w0 = (r, w1)"
    have "blob_size env (files w0 x) \<noteq> 0" using ne p s by simp
    from initialise_nonempty[OF i this] preserves_D[OF initialise_store i] s
    show "?S w1" by simp
  qed
  show ?thesis
    unfolding connectExcelFile_def
    apply (intro hoare_if leafJ)
    apply (rule hoare_catch[where R = "\<lambda>e. ?J"])
     prefer 2
     apply (intro hoare_if leafJ)
    apply (rule hoare_post[where Q' = ?B])
     apply (rule hoare_bind[where R = "\<lambda>x w. pickable env x \<and> ?J w"])
      apply (rule hoare_post[OF pk])
      apply (simp split: sum.splits)
     apply (rule hoare_assume)
     apply (rule hoare_bind[where R = "\<lambda>x. ?J"])
      apply (rule hoare_post[OF ens])
      apply (simp split: sum.splits)
     apply (rule hoare_if)
      apply (rule leafJB)
     apply (rule hoare_bind[where R = "\<lambda>u. ?S"])
      apply (rule hoare_post[OF sav])
       apply assumption
      apply (simp split: sum.splits)
     apply (rule hoare_bind[where R = "\<lambda>u. ?S"])
      apply (rule hoare_post[OF ini])
       apply assumption
      apply (simp split: sum.splits)
     apply (rule leafS)
    apply (simp split: sum.splits)
    apply simp
    done
qed

lemma append_fresh_undecodable:
  assumes nd: "\<forall>h. pickable env h \<longrightarrow> undecodable env (F h)"
  shows "hoare (\<lambda>w. handleStore w = None \<and> files w = F \<and> writes w = W)
           (appendCustomerToExcel env e autoConnect)
           (\<lambda>r w. (r = Inr False \<or> r = Inl Pending) \<and> files w = F \<and> writes w = W)"
proof -
  let ?J = "\<lambda>w::'a world. files w = F \<and> writes w = W"
  let ?N = "\<lambda>w::'a world. handleStore w = None \<and> ?J w"
  let ?S = "\<lambda>w::'a world. ?J w \<and> (\<exists>h. handleStore w = Some h \<and> pickable env h)"
  let ?Q = "\<lambda>(r::halt + bool) (w::'a world). (r = Inr False \<or> r = Inl Pending) \<and> ?J w"
  let ?B = "\<lambda>(r::halt + bool) (w::'a world). case r of Inl e \<Rightarrow> ?J w | Inr b \<Rightarrow> ?Q (Inr b) w"
  have ne: "\<forall>h. pickable env h \<longrightarrow> blob_size env (F h) \<noteq> 0"
    using nd by (auto simp: undecodable_def)
  have leafN: "\<And>msg err. hoare ?N (bind_io (setExcelStatus msg err) (\<lambda>u. return_io False)) ?Q"
    by (rule hoareI) (auto simp: status_return)
  have leafNB: "\<And>msg err. hoare ?N (bind_io (setExcelStatus msg err) (\<lambda>u. return_io False)) ?B"
    by (rule hoareI) (auto simp: status_return)
  have leafJ: "\<And>msg err. hoare ?J (bind_io (setExcelStatus msg err) (\<lambda>u. return_io False)) ?Q"
    by (rule hoareI) (auto simp: status_return)
  have load: "hoare ?N (getSavedFileHandle env)
      (\<lambda>r w. case r of Inl err \<Rightarrow> ?J w | Inr x \<Rightarrow> x = None \<and> ?N w)"
    by (rule hoareI) (auto dest: getSaved_result getSaved_writes split: sum.splits)
  have conn: "hoare ?N (connectExcelFile env)
      (\<lambda>r w. case r of Inl err \<Rightarrow> ?J w | Inr b \<Rightarrow> if b then ?S w else ?J w)"
    by (rule hoare_pre[OF hoare_post[OF connect_nonempty[OF ne, of W]]]) (auto split: sum.splits)
  have ret: "hoare ?J (return_io False) ?B"
    by (rule hoareI) (auto simp: return_io_def)
  have reload: "hoare ?S (bind_io (getSavedFileHandle env) (\<lambda>handle'. appendWithHandle env e handle')) ?B"
  proof (rule hoareI)
    fix w0 r0 w3
    assume s: "?S w0"
      and b: "bind_io (getSavedFileHandle env) (\<lambda>handle'. appendWithHandle env e handle') w0 = (r0, w3)"
    then obtain h where h: "handleStore w0 = Some h" "pickable env h" by blast
    from nd h obtain err where u: "0 < blob_size env (F h)" "xlsx_read env (F h) = Inl err"
      by (auto simp: undecodable_def)
    obtain r1 w2 where g: "getSavedFileHandle env w0 = (r1, w2)" by (cases "getSavedFileHandle env w0")
    note g1 = getSaved_result[OF g] getSaved_writes[OF g]
    have j2: "?J w2" using g1 s by simp
    show "?B r0 w3"
    proof (cases r1)
      case (Inl err)
      then show ?thesis using b g j2 by (auto simp: bind_io_def)
    next
      case (Inr x)
      with g1 h have x: "x = Some h" by auto
      with b g Inr have a: "appendWithHandle env e (Some h) w2 = (r0, w3)" by (simp add: bind_io_def)
      from hoareD[OF appendWithHandle_undecodable[where F = F and h = h and W = W and e = e, OF u] j2 a]
      show ?thesis
        by (cases r0) auto
    qed
  qed
  show ?thesis
    unfolding appendCustomerToExcel_def
    apply (intro hoare_if leafN)
    apply (rule hoare_catch[where R = "\<lambda>err. ?J"])
     prefer 2
     apply (rule leafJ)
    apply (rule hoare_post[where Q' = ?B])
     apply (rule hoare_bind[where R = "\<lambda>x w. x = None \<and> ?N w"])
      apply (rule hoare_post[OF load])
      apply (simp split: sum.splits)
     apply (rule hoare_assume)
     apply (erule ssubst)
     apply (simp only: simp_thms if_True)
     apply (rule hoare_if)
      apply (rule hoare_bind[where R = "\<lambda>b w. if b then ?S w else ?J w"])
       apply (rule hoare_post[OF conn])
       apply (simp split: sum.splits)
      apply (rule hoare_if)
       apply (rule hoare_pre[OF ret])
       apply simp
      apply (rule hoare_pre[OF reload])
      apply simp
     apply (rule leafNB)
    apply assumption
    apply simp
    done
qed

lemma append_stored_undecodable:
  assumes "0 < blob_size env (F h)" "xlsx_read env (F h) = Inl err"
  shows "hoare (\<lambda>w. handleStore w = Some h \<and> files w = F \<and> writes w = W)
           (appendCustomerToExcel env e autoConnect)
           (\<lambda>r w. r = Inr False \<and> files w = F \<and> writes w = W)"
proof -
  let ?I = "\<lambda>w1::'a world. files w1 = F \<and> writes w1 = W"
  let ?P = "\<lambda>w1::'a world. handleStore w1 = Some h \<and> ?I w1"
  have load: "hoare ?P (getSavedFileHandle env)
      (\<lambda>r w1. case r of Inl err \<Rightarrow> ?I w1 | Inr x \<Rightarrow> x = Some h \<and> ?I w1)"
    by (rule hoareI) (auto dest: getSaved_result getSaved_writes split: sum.splits)
  note rest = appendWithHandle_undecodable[where F = F and h = h and W = W and e = e, OF assms]
  show ?thesis
    unfolding appendCustomerToExcel_def
    apply (intro hoare_if hoare_status_return)
      apply simp
     apply simp
    apply (rule hoare_catch_settled[where R = "\<lambda>err. ?I"])
      apply (rule hoare_bind[where R = "\<lambda>x w1. x = Some h \<and> ?I w1"])
       apply (rule hoare_post[OF load])
       apply (simp split: sum.splits)
      apply (rule hoare_assume)
      apply simp
      apply (rule hoare_post[OF rest])
      apply (auto split: sum.splits)[1]
     apply (rule hoare_status_return)
     apply simp
    apply (rule settles_pre[OF append_body_stored_settles])
    apply simp
    done
qed

section \<open>The claims\<close>




text \<open>
  C2. Let SheetJS read back what it wrote, and let a sequence of calls of
  \<open>appendCustomerToExcel\<close>, each awaited before the next, start where the target of the
  stored handle is empty or holds the header row only (or where no handle is stored yet and
  every file the user can pick is such a file). Then a handle that was stored stays stored,
  and as soon as one call has returned \<open>true\<close> the store holds a handle whose file is not
  empty and whose sheet consists of the fixed header row followed by the rows of the calls
  that returned \<open>true\<close>, in call order. So after \<open>N\<close> calls that all returned \<open>true\<close> the
  sheet has \<open>N + 1\<close> rows: the header and the \<open>N\<close> records, most recent last.
\<close>

theorem successful_appends_rows:
  assumes "codec_ok env" and "fresh_start env w" and "append_calls env calls w = (rs, w')"
  shows "(\<forall>h. handleStore w = Some h \<longrightarrow>
            handleStore w' = Some h \<and>
            document_rows env (files w' h) =
              Some (map Some EXCEL_HEADERS # appended_rows (number_toString env) rs calls))
     \<and> ((\<exists>r\<in>set rs. r = Inr True) \<longrightarrow>
          (\<exists>h. handleStore w' = Some h \<and> 0 < blob_size env (files w' h) \<and>
               document_rows env (files w' h) =
                 Some (map Some EXCEL_HEADERS # appended_rows (number_toString env) rs calls)))
     \<and> ((\<forall>r\<in>set rs. r = Inr True) \<longrightarrow>
          appended_rows (number_toString env) rs calls =
            map (\<lambda>c. entryRow (number_toString env) (fst c)) calls
          \<and> length (map Some EXCEL_HEADERS # appended_rows (number_toString env) rs calls)
              = length calls + 1)"
proof -
  note t = append_calls_inv[OF assms(1) fresh_start_inv[OF assms(2)] assms(3)]
  from t have len: "length rs = length calls"
    and inv: "rows_inv env w' (appended_rows (number_toString env) rs calls) (\<exists>r\<in>set rs. r = Inr True)"
    and keep: "\<forall>h. handleStore w = Some h \<longrightarrow> handleStore w' = Some h"
    by simp_all
  have a: "\<forall>h. handleStore w = Some h \<longrightarrow>
            handleStore w' = Some h \<and>
            document_rows env (files w' h) =
              Some (map Some EXCEL_HEADERS # appended_rows (number_toString env) rs calls)"
    using keep inv by (auto simp: rows_inv_def header_row_def)
  have b: "(\<exists>r\<in>set rs. r = Inr True) \<longrightarrow>
          (\<exists>h. handleStore w' = Some h \<and> 0 < blob_size env (files w' h) \<and>
               document_rows env (files w' h) =
                 Some (map Some EXCEL_HEADERS # appended_rows (number_toString env) rs calls))"
    using inv by (cases "handleStore w'") (auto simp: rows_inv_def header_row_def)
  have c: "(\<forall>r\<in>set rs. r = Inr True) \<longrightarrow>
          appended_rows (number_toString env) rs calls =
            map (\<lambda>c. entryRow (number_toString env) (fst c)) calls
          \<and> length (map Some EXCEL_HEADERS # appended_rows (number_toString env) rs calls)
              = length calls + 1"
    using appended_rows_all[OF len, of "number_toString env"] by auto
  show ?thesis using a b c by blast
qed

theorem successful_appends_rows_witness:
  "codec_ok sample_env
   \<and> fresh_start sample_env (sample_world None NoBytes)
   \<and> fst (append_calls sample_env [(alice, True), (bob, False)] (sample_world None NoBytes))
       = [Inr True, Inr True]
   \<and> handleStore (snd (append_calls sample_env [(alice, True), (bob, False)] (sample_world None NoBytes)))
       = Some sample_handle
   \<and> 0 < blob_size sample_env
        (files (snd (append_calls sample_env [(alice, True), (bob, False)]
                       (sample_world None NoBytes))) sample_handle)
   \<and> document_rows sample_env
        (files (snd (append_calls sample_env [(alice, True), (bob, False)]
                       (sample_world None NoBytes))) sample_handle) =
       Some [[Some ''Date'', Some ''Name'', Some ''WhatsApp Number'', Some ''Address'',
              Some ''Total Volume (ft^3)''],
             [Some ''2024-01-01'', Some ''Alice'', Some ''1234567890'', Some ''12 Main St'', Some ''12.345''],
             [Some ''2024-01-02'', Some ''Bob'', Some ''Not provided'', Some ''Not provided'', Some ''0.500'']]
   \<and> fresh_start sample_env (sample_world (Some sample_handle) NoBytes)
   \<and> handleStore (sample_world (Some sample_handle) NoBytes) = Some sample_handle
   \<and> document_rows sample_env
        (files (snd (append_calls sample_env [(bob, False)]
                       (sample_world (Some sample_handle) NoBytes))) sample_handle) =
       Some [[Some ''Date'', Some ''Name'', Some ''WhatsApp Number'', Some ''Address'',
              Some ''Total Volume (ft^3)''],
             [Some ''2024-01-02'', Some ''Bob'', Some ''Not provided'', Some ''Not provided'', Some ''0.500'']]"
proof -
  let ?w = "sample_world None NoBytes"
  let ?calls = "[(alice, True), (bob, False)]"
  let ?ts = "number_toString sample_env"
  have fs: "fresh_start sample_env ?w"
    by (simp add: fresh_start_def sample_world_def empty_or_header_only_def sample_env_def)
  have rs: "fst (append_calls sample_env ?calls ?w) = [Inr True, Inr True]"
    by (simp add: run_defs split: prod.splits)
  have run: "append_calls sample_env ?calls ?w = ([Inr True, Inr True], snd (append_calls sample_env ?calls ?w))"
    using rs by (simp add: prod_eq_iff)
  have hs: "handleStore (snd (append_calls sample_env ?calls ?w)) = Some sample_handle"
    by (simp add: run_defs split: prod.splits)
  note t = successful_appends_rows[OF sample_codec fs run]
  have ex: "\<exists>r\<in>set [Inr True, Inr True :: halt + bool]. r = Inr True" by simp
  have all: "\<forall>r\<in>set [Inr True, Inr True :: halt + bool]. r = Inr True" by simp
  have e: "map Some EXCEL_HEADERS # appended_rows ?ts [Inr True, Inr True] ?calls =
       [[Some ''Date'', Some ''Name'', Some ''WhatsApp Number'', Some ''Address'',
              Some ''Total Volume (ft^3)''],
             [Some ''2024-01-01'', Some ''Alice'', Some ''1234567890'', Some ''12 Main St'', Some ''12.345''],
             [Some ''2024-01-02'', Some ''Bob'', Some ''Not provided'', Some ''Not provided'', Some ''0.500'']]"
    using t[THEN conjunct2, THEN conjunct2, THEN mp, OF all, THEN conjunct1]
    by (simp add: EXCEL_HEADERS_def entryRow_def alice_def bob_def toFixed_eval)
  from t[THEN conjunct2, THEN conjunct1, THEN mp, OF ex] hs
  have d: "0 < blob_size sample_env (files (snd (append_calls sample_env ?calls ?w)) sample_handle)"
    "document_rows sample_env (files (snd (append_calls sample_env ?calls ?w)) sample_handle) =
       Some (map Some EXCEL_HEADERS # appended_rows ?ts [Inr True, Inr True] ?calls)"
    by auto
  let ?v = "sample_world (Some sample_handle) NoBytes"
  have fv: "fresh_start sample_env ?v"
    by (simp add: fresh_start_def sample_world_def empty_or_header_only_def sample_env_def)
  have sv: "handleStore ?v = Some sample_handle" by (simp add: sample_world_def)
  have rv: "fst (append_calls sample_env [(bob, False)] ?v) = [Inr True]"
    by (simp add: run_defs split: prod.splits)
  have runv: "append_calls sample_env [(bob, False)] ?v = ([Inr True], snd (append_calls sample_env [(bob, False)] ?v))"
    using rv by (simp add: prod_eq_iff)
  note u = successful_appends_rows[OF sample_codec fv runv, THEN conjunct1, rule_format, OF sv, THEN conjunct2]
  have ev: "map Some EXCEL_HEADERS # appended_rows ?ts [Inr True] [(bob, False)] =
       [[Some ''Date'', Some ''Name'', Some ''WhatsApp Number'', Some ''Address'',
              Some ''Total Volume (ft^3)''],
             [Some ''2024-01-02'', Some ''Bob'', Some ''Not provided'', Some ''Not provided'', Some ''0.500'']]"
    by (simp add: EXCEL_HEADERS_def entryRow_def bob_def toFixed_eval sample_env_def)
  show ?thesis
    using sample_codec fs rs hs d(1) d(2)[unfolded e] fv sv u[unfolded ev] by blast
qed

text \<open>
  C3 (amended). Let the user pick a target. If the permission check throws, or if it
  passes and saving the handle fails, \<open>connectExcelFile\<close> returns \<open>false\<close> and the handle
  store is as before. If the handle was saved and reading the target or the initial write
  then fails, \<open>connectExcelFile\<close> returns \<open>false\<close> and the store holds the newly picked
  handle: the save is not undone.
\<close>

theorem connect_failure_after_pick:
  assumes "has_showSaveFilePicker env" "has_indexedDB env" "has_XLSX env"
    and pick: "call_io EvShowSaveFilePicker (show_save_file_picker env) w = (Inr h, w1)"
  shows
    "(\<forall>err w2. ensureReadWritePermission env (Some h) w1 = (Inl (Thrown err), w2) \<longrightarrow>
        fst (connectExcelFile env w) = Inr False \<and>
        handleStore (snd (connectExcelFile env w)) = handleStore w)
     \<and> (\<forall>err w2 w3. ensureReadWritePermission env (Some h) w1 = (Inr True, w2) \<and>
                     saveFileHandle env h w2 = (Inl (Thrown err), w3) \<longrightarrow>
        fst (connectExcelFile env w) = Inr False \<and>
        handleStore (snd (connectExcelFile env w)) = handleStore w)
     \<and> (\<forall>err w2 w3 w4. ensureReadWritePermission env (Some h) w1 = (Inr True, w2) \<and>
                        saveFileHandle env h w2 = (Inr (), w3) \<and>
                        initialiseIfEmpty env h w3 = (Inl (Thrown err), w4) \<longrightarrow>
        fst (connectExcelFile env w) = Inr False \<and>
        handleStore (snd (connectExcelFile env w)) = Some h)"
proof (intro conjI allI impI)
  note body = connect_body[OF assms(1,2,3)]
  have s1: "handleStore w1 = handleStore w" using pick_world[OF pick] by simp
  {
    fix err w2 assume p: "ensureReadWritePermission env (Some h) w1 = (Inl (Thrown err), w2)"
    have "handleStore w2 = handleStore w" using preserves_D[OF ensure_store p] s1 by simp
    then show "fst (connectExcelFile env w) = Inr False"
      and "handleStore (snd (connectExcelFile env w)) = handleStore w"
      using pick p by (simp_all add: body catch_io_def bind_io_def status_return_fun)
  }
  {
    fix err w2 w3
    assume a: "ensureReadWritePermission env (Some h) w1 = (Inr True, w2) \<and>
               saveFileHandle env h w2 = (Inl (Thrown err), w3)"
    then have p: "ensureReadWritePermission env (Some h) w1 = (Inr True, w2)"
      and s: "saveFileHandle env h w2 = (Inl (Thrown err), w3)" by auto
    have "handleStore w3 = handleStore w"
      using preserves_D[OF ensure_store p] saveFileHandle_result[OF s] s1 by simp
    then show "fst (connectExcelFile env w) = Inr False"
      and "handleStore (snd (connectExcelFile env w)) = handleStore w"
      using pick p s by (simp_all add: body catch_io_def bind_io_def status_return_fun)
  }
  {
    fix err w2 w3 w4
    assume a: "ensureReadWritePermission env (Some h) w1 = (Inr True, w2) \<and>
               saveFileHandle env h w2 = (Inr (), w3) \<and>
               initialiseIfEmpty env h w3 = (Inl (Thrown err), w4)"
    then have p: "ensureReadWritePermission env (Some h) w1 = (Inr True, w2)"
      and s: "saveFileHandle env h w2 = (Inr (), w3)"
      and i: "initialiseIfEmpty env h w3 = (Inl (Thrown err), w4)" by auto
    have "handleStore w4 = Some h"
      using saveFileHandle_result[OF s] preserves_D[OF initialise_store i] by simp
    then show "fst (connectExcelFile env w) = Inr False"
      and "handleStore (snd (connectExcelFile env w)) = Some h"
      using pick p s i by (simp_all add: body catch_io_def bind_io_def status_return_fun)
  }
qed


theorem connect_failure_after_pick_witness:
  "has_showSaveFilePicker hostile_env \<and> has_indexedDB hostile_env \<and> has_XLSX hostile_env
   \<and> fst (call_io EvShowSaveFilePicker (show_save_file_picker hostile_env) (sample_world None NoBytes))
       = Inr sample_handle
   \<and> fst (ensureReadWritePermission hostile_env (Some sample_handle)
        (snd (call_io EvShowSaveFilePicker (show_save_file_picker hostile_env)
          (sample_world None NoBytes)))) = Inl (Thrown (Exn ''SecurityError''))
   \<and> fst (connectExcelFile hostile_env (sample_world None NoBytes)) = Inr False
   \<and> handleStore (snd (connectExcelFile hostile_env (sample_world None NoBytes))) = None
   \<and> fst (saveFileHandle unsaving_env sample_handle
        (snd (ensureReadWritePermission unsaving_env (Some sample_handle)
          (snd (call_io EvShowSaveFilePicker (show_save_file_picker unsaving_env)
            (sample_world None NoBytes)))))) = Inl (Thrown (Exn ''QuotaExceededError''))
   \<and> fst (connectExcelFile unsaving_env (sample_world None NoBytes)) = Inr False
   \<and> handleStore (snd (connectExcelFile unsaving_env (sample_world None NoBytes))) = None
   \<and> fst (initialiseIfEmpty unwritable_env sample_handle
        (snd (saveFileHandle unwritable_env sample_handle
          (snd (ensureReadWritePermission unwritable_env (Some sample_handle)
            (snd (call_io EvShowSaveFilePicker (show_save_file_picker unwritable_env)
              (sample_world None NoBytes)))))))) = Inl (Thrown (Exn ''NotAllowedError''))
   \<and> fst (connectExcelFile unwritable_env (sample_world None NoBytes)) = Inr False
   \<and> handleStore (snd (connectExcelFile unwritable_env (sample_world None NoBytes))) = Some sample_handle"
proof -
  let ?w = "sample_world None NoBytes"
  let ?a1 = "snd (call_io EvShowSaveFilePicker (show_save_file_picker hostile_env) ?w)"
  let ?a2 = "snd (ensureReadWritePermission hostile_env (Some sample_handle) ?a1)"
  let ?b1 = "snd (call_io EvShowSaveFilePicker (show_save_file_picker unsaving_env) ?w)"
  let ?b2 = "snd (ensureReadWritePermission unsaving_env (Some sample_handle) ?b1)"
  let ?b3 = "snd (saveFileHandle unsaving_env sample_handle ?b2)"
  let ?w1 = "snd (call_io EvShowSaveFilePicker (show_save_file_picker unwritable_env) ?w)"
  let ?w2 = "snd (ensureReadWritePermission unwritable_env (Some sample_handle) ?w1)"
  let ?w3 = "snd (saveFileHandle unwritable_env sample_handle ?w2)"
  let ?w4 = "snd (initialiseIfEmpty unwritable_env sample_handle ?w3)"
  have s0: "handleStore ?w = None" by (simp add: sample_world_def)
  have fa: "has_showSaveFilePicker hostile_env" "has_indexedDB hostile_env" "has_XLSX hostile_env"
    by (simp_all add: hostile_env_def sample_env_def)
  have ka: "fst (call_io EvShowSaveFilePicker (show_save_file_picker hostile_env) ?w) = Inr sample_handle"
    by (simp add: call_io_def hostile_env_def sample_env_def)
  have pa: "fst (ensureReadWritePermission hostile_env (Some sample_handle) ?a1) = Inl (Thrown (Exn ''SecurityError''))"
    by (simp add: run_defs hostile_env_def)
  have ka': "call_io EvShowSaveFilePicker (show_save_file_picker hostile_env) ?w = (Inr sample_handle, ?a1)"
    using ka by (simp add: prod_eq_iff)
  have pa': "ensureReadWritePermission hostile_env (Some sample_handle) ?a1 = (Inl (Thrown (Exn ''SecurityError'')), ?a2)"
    using pa by (simp add: prod_eq_iff)
  note ta = connect_failure_after_pick[OF fa ka', THEN conjunct1, rule_format, OF pa']
  have fb: "has_showSaveFilePicker unsaving_env" "has_indexedDB unsaving_env" "has_XLSX unsaving_env"
    by (simp_all add: unsaving_env_def sample_env_def)
  have kb: "fst (call_io EvShowSaveFilePicker (show_save_file_picker unsaving_env) ?w) = Inr sample_handle"
    by (simp add: call_io_def unsaving_env_def sample_env_def)
  have pb: "fst (ensureReadWritePermission unsaving_env (Some sample_handle) ?b1) = Inr True"
    by (simp add: run_defs unsaving_env_def)
  have sb: "fst (saveFileHandle unsaving_env sample_handle ?b2) = Inl (Thrown (Exn ''QuotaExceededError''))"
    by (simp add: run_defs unsaving_env_def)
  have kb': "call_io EvShowSaveFilePicker (show_save_file_picker unsaving_env) ?w = (Inr sample_handle, ?b1)"
    using kb by (simp add: prod_eq_iff)
  have pb': "ensureReadWritePermission unsaving_env (Some sample_handle) ?b1 = (Inr True, ?b2)"
    using pb by (simp add: prod_eq_iff)
  have sb': "saveFileHandle unsaving_env sample_handle ?b2 = (Inl (Thrown (Exn ''QuotaExceededError'')), ?b3)"
    using sb by (simp add: prod_eq_iff)
  note tb = connect_failure_after_pick[OF fb kb', THEN conjunct2, THEN conjunct1, rule_format,
      OF conjI[OF pb' sb']]
  have f: "has_showSaveFilePicker unwritable_env" "has_indexedDB unwritable_env" "has_XLSX unwritable_env"
    by (simp_all add: unwritable_env_def sample_env_def)
  have kf: "fst (call_io EvShowSaveFilePicker (show_save_file_picker unwritable_env) ?w) = Inr sample_handle"
    by (simp add: call_io_def unwritable_env_def sample_env_def)
  have pf: "fst (ensureReadWritePermission unwritable_env (Some sample_handle) ?w1) = Inr True"
    by (simp add: run_defs unwritable_env_def)
  have sf: "fst (saveFileHandle unwritable_env sample_handle ?w2) = Inr ()"
    by (simp add: run_defs unwritable_env_def)
  have fi: "fst (initialiseIfEmpty unwritable_env sample_handle ?w3) = Inl (Thrown (Exn ''NotAllowedError''))"
    by (simp add: run_defs unwritable_env_def)
  have k: "call_io EvShowSaveFilePicker (show_save_file_picker unwritable_env) ?w = (Inr sample_handle, ?w1)"
    using kf by (simp add: prod_eq_iff)
  have p: "ensureReadWritePermission unwritable_env (Some sample_handle) ?w1 = (Inr True, ?w2)"
    using pf by (simp add: prod_eq_iff)
  have s: "saveFileHandle unwritable_env sample_handle ?w2 = (Inr (), ?w3)"
    using sf by (simp add: prod_eq_iff)
  have i: "initialiseIfEmpty unwritable_env sample_handle ?w3 = (Inl (Thrown (Exn ''NotAllowedError'')), ?w4)"
    using fi by (simp add: prod_eq_iff)
  note t = connect_failure_after_pick[OF f k, THEN conjunct2, THEN conjunct2, rule_format,
      OF conjI[OF p conjI[OF s i]]]
  show ?thesis
    using fa ka pa ta[unfolded s0] sb tb[unfolded s0] fi t by blast
qed

theorem connect_keeps_unvalidated_handle_counterexample:
  "handleStore (sample_world None NoBytes) = None
   \<and> fst (connectExcelFile unwritable_env (sample_world None NoBytes)) = Inr False
   \<and> handleStore (snd (connectExcelFile unwritable_env (sample_world None NoBytes))) = Some sample_handle
   \<and> files (snd (connectExcelFile unwritable_env (sample_world None NoBytes))) sample_handle = NoBytes
   \<and> excelStatus (snd (connectExcelFile unwritable_env (sample_world None NoBytes)))
       = Some (''Excel: Failed to connect Excel file.'', True)"
  by (simp add: run_defs unwritable_env_def)

text \<open>
  C4 (amended). When the workbook has no sheet of the fixed name, lines 186 to 191 create a
  sheet that already holds the fixed header row, and register it under the fixed name at
  the end of the sheet names; the append step that follows finds that row, writes no header
  and puts the record in the second row.
\<close>

theorem getOrCreateSheet_creates_header_sheet:
  assumes "Sheets workbook EXCEL_SHEET_NAME = None"
  shows "getOrCreateSheet workbook =
           ([map Some EXCEL_HEADERS],
            workbook\<lparr>Sheets := (Sheets workbook)(EXCEL_SHEET_NAME \<mapsto> [map Some EXCEL_HEADERS]),
                      SheetNames := SheetNames workbook @ [EXCEL_SHEET_NAME]\<rparr>)
         \<and> sheet_to_json (fst (getOrCreateSheet workbook)) = [map Some EXCEL_HEADERS]
         \<and> appendRowToSheet (fst (getOrCreateSheet workbook)) row = [map Some EXCEL_HEADERS, row]"
proof -
  have g: "getOrCreateSheet workbook =
           ([map Some EXCEL_HEADERS],
            workbook\<lparr>Sheets := (Sheets workbook)(EXCEL_SHEET_NAME \<mapsto> [map Some EXCEL_HEADERS]),
                      SheetNames := SheetNames workbook @ [EXCEL_SHEET_NAME]\<rparr>)"
    using assms by (simp add: getOrCreateSheet_def aoa_to_sheet_def header_row_def Let_def)
  have j: "sheet_to_json [map Some EXCEL_HEADERS] = [map Some EXCEL_HEADERS]"
    using not_blank_Some[of EXCEL_HEADERS "[]"] row_array_Some[of EXCEL_HEADERS]
    by (simp add: sheet_to_json_def EXCEL_HEADERS_def)
  show ?thesis
    by (simp add: g j appendRowToSheet_def sheet_add_below)
qed

theorem getOrCreateSheet_creates_header_sheet_witness:
  "Sheets other_workbook EXCEL_SHEET_NAME = None
   \<and> fst (getOrCreateSheet other_workbook) = [map Some EXCEL_HEADERS]
   \<and> SheetNames (snd (getOrCreateSheet other_workbook)) = [''Sheet1'', ''CustomerData'']
   \<and> appendRowToSheet (fst (getOrCreateSheet other_workbook)) [Some ''r''] =
       [map Some EXCEL_HEADERS, [Some ''r'']]"
proof -
  have n: "Sheets other_workbook EXCEL_SHEET_NAME = None"
    by (simp add: other_workbook_def EXCEL_SHEET_NAME_def)
  note t = getOrCreateSheet_creates_header_sheet[OF n, of "[Some ''r'']"]
  have a: "fst (getOrCreateSheet other_workbook) = [map Some EXCEL_HEADERS]"
    using t[THEN conjunct1] by simp
  have b: "SheetNames (snd (getOrCreateSheet other_workbook)) = [''Sheet1'', ''CustomerData'']"
    using t[THEN conjunct1] by (simp add: other_workbook_def EXCEL_SHEET_NAME_def)
  show ?thesis
    using n a b t[THEN conjunct2, THEN conjunct2] by blast
qed

theorem getOrCreateSheet_counterexample:
  "Sheets other_workbook EXCEL_SHEET_NAME = None
   \<and> fst (getOrCreateSheet other_workbook) \<noteq> []
   \<and> sheet_to_json (fst (getOrCreateSheet other_workbook)) =
       [[Some ''Date'', Some ''Name'', Some ''WhatsApp Number'', Some ''Address'',
         Some ''Total Volume (ft^3)'']]"
  by (simp add: other_workbook_def EXCEL_SHEET_NAME_def getOrCreateSheet_def aoa_to_sheet_def
      header_row_def EXCEL_HEADERS_def sheet_to_json_def blank_row_def row_array_def Let_def)

text \<open>
  C5 (amended). The script tells a document from other bytes by \<open>XLSX.read\<close> alone. Let
  the target of a call be one it cannot decode: the file of the stored handle, or with no
  handle stored every file the user can pick, is not empty and makes \<open>XLSX.read\<close> throw.
  Then the call of \<open>appendCustomerToExcel\<close> does not return \<open>true\<close>, leaves every file as it
  was and makes no call that writes; with a handle stored, or without \<open>autoConnect\<close>, it
  returns \<open>false\<close>. When a call with a stored handle gets as far as decoding (feature
  checks, load of the handle, permission and the read of the file succeed), its outcome is
  \<open>false\<close> with the error status "Could not update Excel file.": the script has no outcome
  of its own for a decode failure.
\<close>

theorem append_to_undecodable_target:
  assumes "target_undecodable env w"
  shows "(fst (appendCustomerToExcel env e autoConnect w) = Inr False \<or>
          fst (appendCustomerToExcel env e autoConnect w) = Inl Pending)
     \<and> (handleStore w \<noteq> None \<or> \<not> autoConnect \<longrightarrow>
          fst (appendCustomerToExcel env e autoConnect w) = Inr False)
     \<and> files (snd (appendCustomerToExcel env e autoConnect w)) = files w
     \<and> writes (snd (appendCustomerToExcel env e autoConnect w)) = writes w
     \<and> (\<forall>h w1 w2 w3 w4 f b.
          handleStore w = Some h \<and>
          has_XLSX env \<and> has_indexedDB env \<and> has_showSaveFilePicker env \<and>
          getSavedFileHandle env w = (Inr (Some h), w1) \<and>
          ensureReadWritePermission env (Some h) w1 = (Inr True, w2) \<and>
          getFile env h w2 = (Inr f, w3) \<and>
          arrayBuffer env h f w3 = (Inr b, w4) \<longrightarrow>
          appendCustomerToExcel env e autoConnect w =
            (Inr False, snd (setExcelStatus ''Could not update Excel file.'' True w4)))"
proof -
  let ?r = "fst (appendCustomerToExcel env e autoConnect w)"
  let ?w = "snd (appendCustomerToExcel env e autoConnect w)"
  have q: "(?r = Inr False \<or> ?r = Inl Pending) \<and> files ?w = files w \<and> writes ?w = writes w"
  proof (cases "handleStore w")
    case None
    with assms have "\<forall>h. pickable env h \<longrightarrow> undecodable env (files w h)"
      by (simp add: target_undecodable_def)
    from hoareD[OF append_fresh_undecodable[OF this, of "writes w" e autoConnect], of w ?r ?w] None
    show ?thesis by simp
  next
    case (Some h)
    with assms obtain err where "0 < blob_size env (files w h)" "xlsx_read env (files w h) = Inl err"
      by (auto simp: target_undecodable_def undecodable_def)
    from hoareD[OF append_stored_undecodable[where F = "files w" and h = h and W = "writes w" and e = e
          and autoConnect = autoConnect, OF this], of w ?r ?w] Some
    show ?thesis by simp
  qed
  have s: "?r = Inr False" if "handleStore w \<noteq> None \<or> \<not> autoConnect"
  proof -
    from that have "?r \<noteq> Inl Pending"
    proof
      assume "handleStore w \<noteq> None"
      then show ?thesis
        using append_stored_settles[of env e autoConnect] by (simp add: settles_def)
    next
      assume "\<not> autoConnect"
      then show ?thesis
        using append_manual_settles[of "\<lambda>w. True" env e] by (simp add: settles_def)
    qed
    with q show ?thesis by blast
  qed
  have spec: "appendCustomerToExcel env e autoConnect w =
            (Inr False, snd (setExcelStatus ''Could not update Excel file.'' True w4))"
    if a: "handleStore w = Some h \<and>
          has_XLSX env \<and> has_indexedDB env \<and> has_showSaveFilePicker env \<and>
          getSavedFileHandle env w = (Inr (Some h), w1) \<and>
          ensureReadWritePermission env (Some h) w1 = (Inr True, w2) \<and>
          getFile env h w2 = (Inr f, w3) \<and>
          arrayBuffer env h f w3 = (Inr b, w4)" for h w1 w2 w3 w4 f b
  proof -
    from a have st: "handleStore w = Some h"
      and feat: "has_XLSX env" "has_indexedDB env" "has_showSaveFilePicker env"
      and l: "getSavedFileHandle env w = (Inr (Some h), w1)"
      and p: "ensureReadWritePermission env (Some h) w1 = (Inr True, w2)"
      and g: "getFile env h w2 = (Inr f, w3)"
      and b: "arrayBuffer env h f w3 = (Inr b, w4)" by auto
    from assms st obtain err where u: "0 < blob_size env (files w h)" "xlsx_read env (files w h) = Inl err"
      by (auto simp: target_undecodable_def undecodable_def)
    have "files w2 = files w"
      using getSaved_result[OF l] preserves_D[OF ensure_files p] by simp
    then have f: "f = files w h" using getFile_result[OF g] by auto
    have bf: "b = files w h" using arrayBuffer_result[OF b] f by auto
    note g' = g[unfolded f] and b' = b[unfolded f bf]
    show ?thesis
      using l p g' b' u
      by (simp add: append_body[OF feat] appendWithHandle_def catch_io_def bind_io_def lift_io_def
          status_return_fun)
  qed
  show ?thesis
    using q s spec by blast
qed

theorem append_to_undecodable_target_witness:
  "target_undecodable sample_env (sample_world (Some sample_handle) OtherBytes)
   \<and> handleStore (sample_world (Some sample_handle) OtherBytes) \<noteq> None
   \<and> fst (appendCustomerToExcel sample_env alice True (sample_world (Some sample_handle) OtherBytes)) = Inr False
   \<and> files (snd (appendCustomerToExcel sample_env alice True (sample_world (Some sample_handle) OtherBytes)))
        sample_handle = OtherBytes
   \<and> writes (snd (appendCustomerToExcel sample_env alice True (sample_world (Some sample_handle) OtherBytes))) = []
   \<and> excelStatus (snd (appendCustomerToExcel sample_env alice True (sample_world (Some sample_handle) OtherBytes)))
        = Some (''Excel: Could not update Excel file.'', True)
   \<and> target_undecodable sample_env (sample_world None OtherBytes)
   \<and> fst (appendCustomerToExcel sample_env alice True (sample_world None OtherBytes)) = Inr False
   \<and> handleStore (snd (appendCustomerToExcel sample_env alice True (sample_world None OtherBytes)))
        = Some sample_handle
   \<and> files (snd (appendCustomerToExcel sample_env alice True (sample_world None OtherBytes)))
        sample_handle = OtherBytes
   \<and> writes (snd (appendCustomerToExcel sample_env alice True (sample_world None OtherBytes))) = []"
proof -
  let ?w = "sample_world (Some sample_handle) OtherBytes"
  let ?w1 = "snd (getSavedFileHandle sample_env ?w)"
  let ?w2 = "snd (ensureReadWritePermission sample_env (Some sample_handle) ?w1)"
  let ?w3 = "snd (getFile sample_env sample_handle ?w2)"
  let ?w4 = "snd (arrayBuffer sample_env sample_handle OtherBytes ?w3)"
  let ?v = "sample_world None OtherBytes"
  have a: "handleStore ?w = Some sample_handle" by (simp add: sample_world_def)
  have a': "handleStore ?w \<noteq> None" by (simp add: sample_world_def)
  have n: "target_undecodable sample_env ?w"
    by (simp add: target_undecodable_def undecodable_def sample_world_def sample_env_def)
  have feat: "has_XLSX sample_env \<and> has_indexedDB sample_env \<and> has_showSaveFilePicker sample_env"
    by (simp add: sample_env_def)
  have l: "getSavedFileHandle sample_env ?w = (Inr (Some sample_handle), ?w1)"
    by (simp add: prod_eq_iff) (simp add: run_defs)
  have p: "ensureReadWritePermission sample_env (Some sample_handle) ?w1 = (Inr True, ?w2)"
    by (simp add: prod_eq_iff) (simp add: run_defs)
  have g: "getFile sample_env sample_handle ?w2 = (Inr OtherBytes, ?w3)"
    by (simp add: prod_eq_iff) (simp add: run_defs)
  have r: "arrayBuffer sample_env sample_handle OtherBytes ?w3 = (Inr OtherBytes, ?w4)"
    by (simp add: prod_eq_iff) (simp add: run_defs)
  have st: "excelStatus ?w4 = Some ([], False)"
    by (simp add: run_defs)
  note t = append_to_undecodable_target[OF n, of alice True]
  have d: "fst (appendCustomerToExcel sample_env alice True ?w) = Inr False"
    using t[THEN conjunct2, THEN conjunct1] a' by blast
  have e: "files (snd (appendCustomerToExcel sample_env alice True ?w)) sample_handle = OtherBytes"
    using t[THEN conjunct2, THEN conjunct2, THEN conjunct1] by (simp add: sample_world_def)
  have f: "writes (snd (appendCustomerToExcel sample_env alice True ?w)) = []"
    using t[THEN conjunct2, THEN conjunct2, THEN conjunct2, THEN conjunct1]
    by (simp add: sample_world_def writes_def)
  have s: "excelStatus (snd (appendCustomerToExcel sample_env alice True ?w))
        = Some (''Excel: Could not update Excel file.'', True)"
    using t[THEN conjunct2, THEN conjunct2, THEN conjunct2, THEN conjunct2, rule_format,
        OF conjI[OF a conjI[OF feat[THEN conjunct1] conjI[OF feat[THEN conjunct2, THEN conjunct1]
          conjI[OF feat[THEN conjunct2, THEN conjunct2] conjI[OF l conjI[OF p conjI[OF g r]]]]]]]] st
    by simp
  have m: "target_undecodable sample_env ?v"
    by (simp add: target_undecodable_def undecodable_def sample_world_def sample_env_def)
  note u = append_to_undecodable_target[OF m, of alice True]
  have d2: "fst (appendCustomerToExcel sample_env alice True ?v) = Inr False"
    by (simp add: run_defs)
  have h2: "handleStore (snd (appendCustomerToExcel sample_env alice True ?v)) = Some sample_handle"
    by (simp add: run_defs)
  have e2: "files (snd (appendCustomerToExcel sample_env alice True ?v)) sample_handle = OtherBytes"
    using u[THEN conjunct2, THEN conjunct2, THEN conjunct1] by (simp add: sample_world_def)
  have f2: "writes (snd (appendCustomerToExcel sample_env alice True ?v)) = []"
    using u[THEN conjunct2, THEN conjunct2, THEN conjunct2, THEN conjunct1]
    by (simp add: sample_world_def writes_def)
  show ?thesis using n a' d e f s m d2 h2 e2 f2 by blast
qed

text \<open>
  A target that is no workbook and that \<open>XLSX.read\<close> accepts all the same, such as a text
  file, is a document to the script: the call returns \<open>true\<close>, and the file is replaced
  by a workbook that holds what was read and a new sheet with the header row and the
  record.
\<close>

theorem append_overwrites_text_file_counterexample:
  "files (sample_world (Some sample_handle) OtherBytes) sample_handle = OtherBytes
   \<and> 0 < blob_size lenient_env OtherBytes
   \<and> fst (appendCustomerToExcel lenient_env alice False (sample_world (Some sample_handle) OtherBytes))
       = Inr True
   \<and> files (snd (appendCustomerToExcel lenient_env alice False
               (sample_world (Some sample_handle) OtherBytes))) sample_handle
       = Document \<lparr>SheetNames = [''Sheet1'', ''CustomerData''],
                   Sheets = [''Sheet1'' \<mapsto> [[Some ''x'']],
                             ''CustomerData'' \<mapsto>
                               [[Some ''Date'', Some ''Name'', Some ''WhatsApp Number'', Some ''Address'',
                                 Some ''Total Volume (ft^3)''],
                                [Some ''2024-01-01'', Some ''Alice'', Some ''1234567890'',
                                 Some ''12 Main St'', Some ''12.345'']]]\<rparr>
   \<and> writes (snd (appendCustomerToExcel lenient_env alice False
               (sample_world (Some sample_handle) OtherBytes))) \<noteq> []"
  by (simp add: run_defs writes_def is_write_def alice_def entryRow_def toFixed_eval
      appendRowToSheet_def sheet_to_json_def sheet_add_aoa_def put_row_def blank_row_def
      row_array_def header_row_def EXCEL_HEADERS_def overlay_Nil2)

text \<open>
  C6. In a browser that passes the feature checks, let loading the handle give \<open>null\<close>.
  Without \<open>autoConnect\<close> the call returns \<open>false\<close> and sets the error status "Not
  connected. Click Connect Excel.". With \<open>autoConnect\<close> it runs \<open>connectExcelFile\<close>; when
  that returns \<open>false\<close> the call returns \<open>false\<close> in the world \<open>connectExcelFile\<close> left;
  when it returns \<open>true\<close> the call loads the handle from the store again and goes on with
  the loaded handle, inside the same \<open>try\<close>.
\<close>

theorem append_without_handle:
  assumes "has_XLSX env" "has_indexedDB env" "has_showSaveFilePicker env"
    and load: "getSavedFileHandle env w = (Inr None, w1)"
  shows
    "appendCustomerToExcel env e False w =
       (Inr False, snd (setExcelStatus ''Not connected. Click Connect Excel.'' True w1))
     \<and> excelStatus (snd (appendCustomerToExcel env e False w)) =
         (case excelStatus w of None \<Rightarrow> None
          | Some s \<Rightarrow> Some (''Excel: Not connected. Click Connect Excel.'', True))
     \<and> (\<forall>w2. connectExcelFile env w1 = (Inr False, w2) \<longrightarrow>
           appendCustomerToExcel env e True w = (Inr False, w2))
     \<and> (\<forall>w2. connectExcelFile env w1 = (Inr True, w2) \<longrightarrow>
           appendCustomerToExcel env e True w =
             catch_io (bind_io (getSavedFileHandle env) (\<lambda>handle'. appendWithHandle env e handle'))
               (\<lambda>error. bind_io (setExcelStatus ''Could not update Excel file.'' True) (\<lambda>u.
                          return_io False)) w2)"
proof (intro conjI allI impI)
  note body = append_body[OF assms(1,2,3)]
  have st: "excelStatus w1 = excelStatus w" using getSaved_result[OF load] by simp
  show a: "appendCustomerToExcel env e False w =
       (Inr False, snd (setExcelStatus ''Not connected. Click Connect Excel.'' True w1))"
    using load by (simp add: body catch_io_def bind_io_def status_return_fun)
  show "excelStatus (snd (appendCustomerToExcel env e False w)) =
         (case excelStatus w of None \<Rightarrow> None
          | Some s \<Rightarrow> Some (''Excel: Not connected. Click Connect Excel.'', True))"
    by (simp add: a st split: option.splits)
  {
    fix w2 assume c: "connectExcelFile env w1 = (Inr False, w2)"
    show "appendCustomerToExcel env e True w = (Inr False, w2)"
      using load c by (simp add: body catch_io_def bind_io_def return_io_def)
  }
  {
    fix w2 assume c: "connectExcelFile env w1 = (Inr True, w2)"
    show "appendCustomerToExcel env e True w =
             catch_io (bind_io (getSavedFileHandle env) (\<lambda>handle'. appendWithHandle env e handle'))
               (\<lambda>error. bind_io (setExcelStatus ''Could not update Excel file.'' True) (\<lambda>u.
                          return_io False)) w2"
      using load c by (simp add: body catch_io_def bind_io_def)
  }
qed

theorem append_without_handle_witness:
  "has_XLSX cancelling_env \<and> has_indexedDB cancelling_env \<and> has_showSaveFilePicker cancelling_env
   \<and> fst (getSavedFileHandle cancelling_env (sample_world None NoBytes)) = Inr None
   \<and> appendCustomerToExcel cancelling_env alice False (sample_world None NoBytes) =
       (Inr False, snd (setExcelStatus ''Not connected. Click Connect Excel.'' True
          (snd (getSavedFileHandle cancelling_env (sample_world None NoBytes)))))
   \<and> fst (connectExcelFile cancelling_env (snd (getSavedFileHandle cancelling_env (sample_world None NoBytes))))
       = Inr False
   \<and> appendCustomerToExcel cancelling_env alice True (sample_world None NoBytes) =
       (Inr False,
        snd (connectExcelFile cancelling_env (snd (getSavedFileHandle cancelling_env (sample_world None NoBytes)))))
   \<and> fst (connectExcelFile sample_env (snd (getSavedFileHandle sample_env (sample_world None NoBytes))))
       = Inr True
   \<and> fst (appendCustomerToExcel sample_env alice True (sample_world None NoBytes)) = Inr True"
proof -
  let ?w = "sample_world None NoBytes"
  let ?w1 = "snd (getSavedFileHandle cancelling_env ?w)"
  let ?w2 = "snd (connectExcelFile cancelling_env ?w1)"
  let ?v1 = "snd (getSavedFileHandle sample_env ?w)"
  let ?v2 = "snd (connectExcelFile sample_env ?v1)"
  have f: "has_XLSX cancelling_env" "has_indexedDB cancelling_env" "has_showSaveFilePicker cancelling_env"
    by (simp_all add: cancelling_env_def sample_env_def)
  have g: "has_XLSX sample_env" "has_indexedDB sample_env" "has_showSaveFilePicker sample_env"
    by (simp_all add: sample_env_def)
  have lf: "fst (getSavedFileHandle cancelling_env ?w) = Inr None"
    by (simp add: run_defs cancelling_env_def)
  have l: "getSavedFileHandle cancelling_env ?w = (Inr None, ?w1)"
    using lf by (simp add: prod_eq_iff)
  have cf: "fst (connectExcelFile cancelling_env ?w1) = Inr False"
    by (simp add: run_defs cancelling_env_def)
  have c: "connectExcelFile cancelling_env ?w1 = (Inr False, ?w2)"
    using cf by (simp add: prod_eq_iff)
  have mf: "fst (getSavedFileHandle sample_env ?w) = Inr None"
    by (simp add: run_defs)
  have m: "getSavedFileHandle sample_env ?w = (Inr None, ?v1)"
    using mf by (simp add: prod_eq_iff)
  have df: "fst (connectExcelFile sample_env ?v1) = Inr True"
    by (simp add: run_defs)
  have d: "connectExcelFile sample_env ?v1 = (Inr True, ?v2)"
    using df by (simp add: prod_eq_iff)
  note t = append_without_handle[OF f l, of alice]
  note u = append_without_handle[OF g m, of alice]
  have r: "fst (catch_io (bind_io (getSavedFileHandle sample_env) (\<lambda>handle'. appendWithHandle sample_env alice handle'))
               (\<lambda>error. bind_io (setExcelStatus ''Could not update Excel file.'' True) (\<lambda>u.
                          return_io False)) ?v2) = Inr True"
    by (simp add: run_defs)
  have s: "fst (appendCustomerToExcel sample_env alice True ?w) = Inr True"
    using u[THEN conjunct2, THEN conjunct2, THEN conjunct2, rule_format, OF d] r by simp
  show ?thesis
    using f lf cf df t[THEN conjunct1] t[THEN conjunct2, THEN conjunct2, THEN conjunct1, rule_format, OF c] s
    by blast
qed

text \<open>
  C7. A call of \<open>appendCustomerToExcel\<close> that starts with a handle in the store ends with
  the same handle in the store, whatever the collaborators answer and whatever the call
  returns: a failed append (permission denied, file not readable, bytes not a workbook,
  write failed) neither removes nor replaces the stored handle.
\<close>

theorem append_keeps_stored_handle:
  assumes "handleStore w = Some h"
  shows "handleStore (snd (appendCustomerToExcel env e autoConnect w)) = Some h"
  using hoareD[OF append_store_hoare assms, of env e autoConnect
      "fst (appendCustomerToExcel env e autoConnect w)"
      "snd (appendCustomerToExcel env e autoConnect w)"]
  by simp

theorem append_keeps_stored_handle_witness:
  "handleStore (sample_world (Some sample_handle) OtherBytes) = Some sample_handle
   \<and> fst (appendCustomerToExcel sample_env alice True (sample_world (Some sample_handle) OtherBytes)) = Inr False
   \<and> handleStore (snd (appendCustomerToExcel sample_env alice True (sample_world (Some sample_handle) OtherBytes)))
       = Some sample_handle"
proof -
  have h: "handleStore (sample_world (Some sample_handle) OtherBytes) = Some sample_handle"
    by (simp add: sample_world_def)
  have f: "fst (appendCustomerToExcel sample_env alice True (sample_world (Some sample_handle) OtherBytes)) = Inr False"
    by (simp add: run_defs)
  show ?thesis
    using h f append_keeps_stored_handle[OF h, of sample_env alice True] by simp
qed

text \<open>
  C8. A case in which two of the operations do not return. The user picks a file and
  permission is granted, and the transaction that stores the handle is aborted at its
  commit, so that only the event \<open>abort\<close> arrives. Nothing settles the promise of
  \<open>saveFileHandle\<close>: \<open>connectExcelFile\<close>, and \<open>appendCustomerToExcel\<close> with \<open>autoConnect\<close>
  and no handle stored, stay pending after the \<open>put\<close>, the status line keeps the text it
  had, and no handle is stored.
\<close>

theorem connect_pending_on_aborted_save:
  "tx_put aborting_env (Suc (Suc (Suc 0))) = TxAbort
   \<and> fst (connectExcelFile aborting_env (sample_world None NoBytes)) = Inl Pending
   \<and> excelStatus (snd (connectExcelFile aborting_env (sample_world None NoBytes)))
       = excelStatus (sample_world None NoBytes)
   \<and> handleStore (snd (connectExcelFile aborting_env (sample_world None NoBytes))) = None
   \<and> trace (snd (connectExcelFile aborting_env (sample_world None NoBytes)))
       = [EvShowSaveFilePicker, EvQueryPermission sample_handle, EvOpenDb, EvPut sample_handle]
   \<and> fst (appendCustomerToExcel aborting_env alice True (sample_world None NoBytes)) = Inl Pending
   \<and> excelStatus (snd (appendCustomerToExcel aborting_env alice True (sample_world None NoBytes)))
       = excelStatus (sample_world None NoBytes)"
  by (simp add: run_defs)

theorem connect_pending_on_aborted_save_witness:
  "has_showSaveFilePicker aborting_env \<and> has_indexedDB aborting_env \<and> has_XLSX aborting_env
   \<and> show_save_file_picker aborting_env 0 = Inr sample_handle
   \<and> query_permission aborting_env (Suc 0) sample_handle = Inr Granted
   \<and> db_open aborting_env (Suc (Suc 0)) = None
   \<and> fst (connectExcelFile aborting_env (sample_world None NoBytes)) = Inl Pending
   \<and> excelStatus (snd (connectExcelFile aborting_env (sample_world None NoBytes))) = Some ([], False)
   \<and> fst (appendCustomerToExcel aborting_env alice True (sample_world None NoBytes)) = Inl Pending"
proof -
  have f: "has_showSaveFilePicker aborting_env \<and> has_indexedDB aborting_env \<and> has_XLSX aborting_env
     \<and> show_save_file_picker aborting_env 0 = Inr sample_handle
     \<and> query_permission aborting_env (Suc 0) sample_handle = Inr Granted
     \<and> db_open aborting_env (Suc (Suc 0)) = None"
    by (simp add: aborting_env_def sample_env_def)
  have s: "excelStatus (sample_world None NoBytes) = Some ([], False)"
    by (simp add: sample_world_def)
  note t = connect_pending_on_aborted_save
  show ?thesis
    using f t[THEN conjunct2, THEN conjunct1]
      t[THEN conjunct2, THEN conjunct2, THEN conjunct1, unfolded s]
      t[THEN conjunct2, THEN conjunct2, THEN conjunct2, THEN conjunct2, THEN conjunct2, THEN conjunct1]
    by blast
qed

text \<open>
  C9. When the user dismisses the file picker (it rejects with AbortError),
  \<open>connectExcelFile\<close> returns \<open>false\<close> with the status "Connection cancelled.", which is not
  marked as an error; the handle store and the files are as before, and the only thing
  recorded is the call of the picker.
\<close>

theorem connect_cancelled:
  assumes "has_showSaveFilePicker env" "has_indexedDB env" "has_XLSX env"
    and "show_save_file_picker env (length (trace w)) = Inl (Exn ''AbortError'')"
  shows "connectExcelFile env w =
     (Inr False,
      w\<lparr>trace := trace w @ [EvShowSaveFilePicker],
        excelStatus := (case excelStatus w of None \<Rightarrow> None
                        | Some s \<Rightarrow> Some (''Excel: Connection cancelled.'', False))\<rparr>)
     \<and> handleStore (snd (connectExcelFile env w)) = handleStore w
     \<and> files (snd (connectExcelFile env w)) = files w"
  using assms
  by (simp add: connectExcelFile_def io_defs setExcelStatus_def split: option.splits)

theorem connect_cancelled_witness:
  "has_showSaveFilePicker cancelling_env \<and> has_indexedDB cancelling_env \<and> has_XLSX cancelling_env
   \<and> show_save_file_picker cancelling_env (length (trace (sample_world None NoBytes))) = Inl (Exn ''AbortError'')
   \<and> fst (connectExcelFile cancelling_env (sample_world None NoBytes)) = Inr False
   \<and> excelStatus (snd (connectExcelFile cancelling_env (sample_world None NoBytes)))
       = Some (''Excel: Connection cancelled.'', False)
   \<and> handleStore (snd (connectExcelFile cancelling_env (sample_world None NoBytes))) = None"
proof -
  have a: "has_showSaveFilePicker cancelling_env" "has_indexedDB cancelling_env" "has_XLSX cancelling_env"
    by (simp_all add: cancelling_env_def sample_env_def)
  have b: "show_save_file_picker cancelling_env (length (trace (sample_world None NoBytes))) = Inl (Exn ''AbortError'')"
    by (simp add: cancelling_env_def)
  note t = connect_cancelled[OF a b]
  have c: "fst (connectExcelFile cancelling_env (sample_world None NoBytes)) = Inr False"
    using t[THEN conjunct1] by simp
  have d: "excelStatus (snd (connectExcelFile cancelling_env (sample_world None NoBytes)))
       = Some (''Excel: Connection cancelled.'', False)"
    using t[THEN conjunct1] by (simp add: sample_world_def)
  have e: "handleStore (snd (connectExcelFile cancelling_env (sample_world None NoBytes))) = None"
    using t[THEN conjunct2, THEN conjunct1] by (simp add: sample_world_def)
  show ?thesis using a b c d e by blast
qed

text \<open>
  C10. When the file the user picks has a size other than zero, \<open>connectExcelFile\<close>
  leaves every file as it was and makes no call that writes (\<open>createWritable\<close>, \<open>write\<close>,
  \<open>close\<close>). In general the only file whose contents a call of \<open>connectExcelFile\<close> can
  change is the picked one, only if its size was zero, and then its new contents are the
  encoding of the workbook that holds the header row only.
\<close>

theorem connect_writes_only_empty_target:
  "(show_save_file_picker env (length (trace w)) = Inr h \<and> blob_size env (files w h) \<noteq> 0 \<longrightarrow>
       files (snd (connectExcelFile env w)) = files w \<and>
       writes (snd (connectExcelFile env w)) = writes w)
   \<and> (files (snd (connectExcelFile env w)) h' \<noteq> files w h' \<longrightarrow>
       show_save_file_picker env (length (trace w)) = Inr h' \<and> blob_size env (files w h') = 0 \<and>
       (\<exists>wb. createWorkbookWithHeaders = Inr wb \<and>
             xlsx_write env wb = Inr (files (snd (connectExcelFile env w)) h')))"
proof -
  define pick where "pick = show_save_file_picker env (length (trace w))"
  define J where "J = (\<lambda>w1 :: 'a world. files w1 = files w \<and> writes w1 = writes w)"
  define Q where "Q = (\<lambda>w1 :: 'a world.
     (\<forall>h. pick = Inr h \<and> blob_size env (files w h) \<noteq> 0 \<longrightarrow> files w1 = files w \<and> writes w1 = writes w)
     \<and> (files w1 = files w \<or>
         (\<exists>h data. pick = Inr h \<and> blob_size env (files w h) = 0 \<and>
            xlsx_write env header_workbook = Inr data \<and> files w1 = (files w)(h := data))))"
  have JQ: "\<And>w1. J w1 \<Longrightarrow> Q w1" by (simp add: J_def Q_def)
  have Qst: "\<And>msg err b. hoare Q (bind_io (setExcelStatus msg err) (\<lambda>u. return_io b)) (\<lambda>r. Q)"
    by (rule hoare_status_return) (simp add: Q_def)
  have Jst: "\<And>msg err b. hoare J (bind_io (setExcelStatus msg err) (\<lambda>u. return_io b)) (\<lambda>r. Q)"
    by (rule hoare_status_return) (simp add: Q_def J_def)
  have ens: "\<And>x. hoare J (ensureReadWritePermission env (Some x)) (\<lambda>r. J)"
    by (rule hoareI) (auto simp: J_def dest: preserves_D[OF ensure_files] preserves_D[OF ensure_writes])
  have sav: "\<And>x. hoare J (saveFileHandle env x) (\<lambda>r. J)"
    by (rule hoareI) (auto simp: J_def dest!: saveFileHandle_result)
  have ini: "\<And>x. pick = Inr x \<Longrightarrow> hoare J (initialiseIfEmpty env x) (\<lambda>r. Q)"
  proof (rule hoareI)
    fix x w0 r w1 assume p: "pick = Inr x" and j: "J w0" and i: "initialiseIfEmpty env x w0 = (r, w1)"
    show "Q w1"
    proof (cases "blob_size env (files w x) = 0")
      case True
      then show ?thesis
        using initialise_result[OF i] j p by (auto simp: Q_def J_def createWorkbookWithHeaders_eq)
    next
      case False
      then show ?thesis
        using initialise_nonempty[OF i] j p by (auto simp: Q_def J_def)
    qed
  qed
  have main: "hoare (\<lambda>w0. w0 = w) (connectExcelFile env) (\<lambda>r. Q)"
  proof (cases "has_showSaveFilePicker env \<and> has_indexedDB env \<and> has_XLSX env")
    case False
    then show ?thesis
      by (auto simp: connectExcelFile_def intro!: hoare_status_return simp: Q_def)
  next
    case True
    then have b: "has_showSaveFilePicker env" "has_indexedDB env" "has_XLSX env" by auto
    show ?thesis
      unfolding connect_body[OF b]
      apply (rule hoare_catch[where R = "\<lambda>e. Q"])
       apply (rule hoare_post[where Q' = "\<lambda>r. Q"])
        apply (rule hoare_bind[where R = "\<lambda>x w1. pick = Inr x \<and> J w1"])
         apply (rule hoareI)
         apply (auto simp: pick_def J_def Q_def dest!: pick_world split: sum.splits)[1]
        apply (rule hoare_assume)
        apply (rule hoare_bind[where R = "\<lambda>x. J"])
         apply (rule hoare_post[OF ens])
         apply (simp add: JQ split: sum.splits)
        apply (rule hoare_if)
         apply (rule Jst)
        apply (rule hoare_bind[where R = "\<lambda>x. J"])
         apply (rule hoare_post[OF sav])
         apply (simp add: JQ split: sum.splits)
        apply (rule hoare_bind[where R = "\<lambda>x. Q"])
         apply (rule hoare_post[OF ini])
          apply assumption
         apply (simp split: sum.splits)
        apply (rule Qst)
       apply (simp split: sum.splits)
      apply (auto intro: Qst)
      done
  qed
  have q: "Q (snd (connectExcelFile env w))"
    using hoareD[OF main, of w "fst (connectExcelFile env w)" "snd (connectExcelFile env w)"] by simp
  have upd: "\<And>f (a::handle) (d::'a). f = f(a := d) \<Longrightarrow> d = f a"
    by (metis fun_upd_same)
  show ?thesis
    using q by (auto simp: Q_def pick_def createWorkbookWithHeaders_eq split: if_splits dest: upd)
qed


theorem connect_writes_only_empty_target_witness:
  "show_save_file_picker sample_env (length (trace (sample_world None OtherBytes))) = Inr sample_handle
   \<and> blob_size sample_env (files (sample_world None OtherBytes) sample_handle) \<noteq> 0
   \<and> fst (connectExcelFile sample_env (sample_world None OtherBytes)) = Inr True
   \<and> files (snd (connectExcelFile sample_env (sample_world None OtherBytes))) sample_handle = OtherBytes
   \<and> writes (snd (connectExcelFile sample_env (sample_world None OtherBytes))) = []
   \<and> files (snd (connectExcelFile sample_env (sample_world None NoBytes))) sample_handle
        \<noteq> files (sample_world None NoBytes) sample_handle
   \<and> xlsx_write sample_env header_workbook
        = Inr (files (snd (connectExcelFile sample_env (sample_world None NoBytes))) sample_handle)"
proof -
  have a: "show_save_file_picker sample_env (length (trace (sample_world None OtherBytes))) = Inr sample_handle"
    by (simp add: sample_env_def)
  have b: "blob_size sample_env (files (sample_world None OtherBytes) sample_handle) \<noteq> 0"
    by (simp add: sample_env_def sample_world_def)
  have c: "fst (connectExcelFile sample_env (sample_world None OtherBytes)) = Inr True"
    by (simp add: run_defs)
  note t = connect_writes_only_empty_target[of sample_env "sample_world None OtherBytes" sample_handle sample_handle]
  from t[THEN conjunct1, rule_format, OF conjI[OF a b]]
  have d: "files (snd (connectExcelFile sample_env (sample_world None OtherBytes))) sample_handle = OtherBytes"
    and e: "writes (snd (connectExcelFile sample_env (sample_world None OtherBytes))) = []"
    by (simp_all add: sample_world_def writes_def)
  have f: "files (snd (connectExcelFile sample_env (sample_world None NoBytes))) sample_handle
        \<noteq> files (sample_world None NoBytes) sample_handle"
    by (simp add: run_defs)
  note u = connect_writes_only_empty_target[of sample_env "sample_world None NoBytes" sample_handle sample_handle]
  from u[THEN conjunct2, rule_format, OF f]
  have g: "xlsx_write sample_env header_workbook
        = Inr (files (snd (connectExcelFile sample_env (sample_world None NoBytes))) sample_handle)"
    by (simp add: createWorkbookWithHeaders_eq)
  show ?thesis using a b c d e f g by blast
qed

end
